theory Spec2Isabelle
  imports Main "HOL-Library.Word" "HOL-Library.Multiset" "HOL-Library.Char_ord"
    "HOL-Library.List_Lexorder"
begin

section \<open>Strings, bytes and hexadecimal\<close>

text \<open>
  A JavaScript string is modelled as a \<open>string\<close> whose characters are the code units
  below 256; a \<open>Uint8Array\<close> is a list of 8-bit words.
\<close>

type_synonym byte = "8 word"
type_synonym bytes = "byte list"

text \<open>\<open>String.prototype.toLowerCase\<close> on code units below 256: A-Z and the Latin-1
  capitals (except the multiplication sign) move up by 32.\<close>

definition toLowerCaseChar :: "char \<Rightarrow> char" where
  "toLowerCaseChar c =
     (let n = (of_char c :: nat)
      in if (65 \<le> n \<and> n \<le> 90) \<or> (192 \<le> n \<and> n \<le> 222 \<and> n \<noteq> 215)
         then char_of (n + 32) else c)"

definition toLowerCase :: "string \<Rightarrow> string" where
  "toLowerCase s = map toLowerCaseChar s"

text \<open>\<open>String.prototype.trim\<close>: white space and line terminators below 256 are
  TAB, LF, VT, FF, CR, SP and NBSP.\<close>

definition isWhiteSpace :: "char \<Rightarrow> bool" where
  "isWhiteSpace c = ((of_char c :: nat) \<in> set [9, 10, 11, 12, 13, 32, 160])"

definition trim :: "string \<Rightarrow> string" where
  "trim s = rev (dropWhile isWhiteSpace (rev (dropWhile isWhiteSpace s)))"

text \<open>\<open>Array.prototype.join\<close>.\<close>

fun join :: "string \<Rightarrow> string list \<Rightarrow> string" where
  "join sep [] = []"
| "join sep [x] = x"
| "join sep (x # y # ys) = x @ sep @ join sep (y # ys)"

text \<open>\<open>String.prototype.padStart\<close> with a one-character filler.\<close>

definition padStart :: "nat \<Rightarrow> char \<Rightarrow> string \<Rightarrow> string" where
  "padStart n c s = replicate (n - length s) c @ s"

text \<open>\<open>utf8ToBytes\<close> (\<open>TextEncoder\<close>): a code unit below 128 is one byte, one from
  128 to 255 is two.\<close>

definition utf8Char :: "char \<Rightarrow> bytes" where
  "utf8Char c =
     (let n = (of_char c :: nat)
      in if n < 128 then [of_nat n]
         else [of_nat (192 + n div 64), of_nat (128 + n mod 64)])"

definition utf8ToBytes :: "string \<Rightarrow> bytes" where
  "utf8ToBytes s = concat (map utf8Char s)"

definition lowerHexChars :: string where
  "lowerHexChars = ''0123456789abcdef''"

definition hexDigit :: "nat \<Rightarrow> char" where
  "hexDigit n = lowerHexChars ! (n mod 16)"

text \<open>The character classes \<open>[0-9a-f]\<close> and \<open>[0-9a-fA-F]\<close>.\<close>

definition isLowerHexChar :: "char \<Rightarrow> bool" where
  "isLowerHexChar c = (c \<in> set lowerHexChars)"

definition isHexChar :: "char \<Rightarrow> bool" where
  "isHexChar c = (c \<in> set ''0123456789abcdefABCDEF'')"

text \<open>\<open>bytesToHex\<close>: two lowercase digits per byte.\<close>

definition byteToHex :: "byte \<Rightarrow> string" where
  "byteToHex b = [hexDigit (unat b div 16), hexDigit (unat b mod 16)]"

definition bytesToHex :: "bytes \<Rightarrow> string" where
  "bytesToHex bs = concat (map byteToHex bs)"

text \<open>The value of a hexadecimal digit; 0 for any other character.\<close>

definition hexVal :: "char \<Rightarrow> nat" where
  "hexVal c =
     (let n = (of_char c :: nat)
      in if 48 \<le> n \<and> n \<le> 57 then n - 48
         else if 97 \<le> n \<and> n \<le> 102 then n - 87
         else if 65 \<le> n \<and> n \<le> 70 then n - 55
         else 0)"

text \<open>\<open>hexToBytes\<close>, which \<open>deriveWalletKey\<close> calls only on a string that passed
  \<open>isValidHexSalt\<close>: one byte per pair of digits.\<close>

fun hexToBytes :: "string \<Rightarrow> bytes" where
  "hexToBytes (a # b # cs) = of_nat (16 * hexVal a + hexVal b) # hexToBytes cs"
| "hexToBytes _ = []"

text \<open>A \<open>BigInt\<close> is an \<open>int\<close>. \<open>BigInt.prototype.toString(16)\<close>: lowercase
  digits, no leading zero, a minus sign before a negative value.\<close>

function bigIntToHex :: "int \<Rightarrow> string" where
  "bigIntToHex i =
     (if i < 0 then CHR ''-'' # bigIntToHex (- i)
      else if i < 16 then [hexDigit (nat i)]
      else bigIntToHex (i div 16) @ [hexDigit (nat (i mod 16))])"
  by pat_completeness auto
termination
  by (relation "measure (\<lambda>i. if i < 0 then nat (- i) + 1 else nat i)") auto

declare bigIntToHex.simps [simp del]

text \<open>The remainder operator \<open>%\<close> on \<open>BigInt\<close> truncates: the sign of the result is
  the sign of the dividend.\<close>

definition bigIntRem :: "int \<Rightarrow> int \<Rightarrow> int" where
  "bigIntRem a b = (if a < 0 then - ((- a) mod \<bar>b\<bar>) else a mod \<bar>b\<bar>)"

text \<open>Decimal rendering of numbers inside template strings.\<close>

function showNat :: "nat \<Rightarrow> string" where
  "showNat n = (if n < 10 then [hexDigit n] else showNat (n div 10) @ [hexDigit (n mod 10)])"
  by pat_completeness auto
termination
  by (relation "measure id") auto

declare showNat.simps [simp del]

definition showInt :: "int \<Rightarrow> string" where
  "showInt i = (if i < 0 then CHR ''-'' # showNat (nat (- i)) else showNat (nat i))"

section \<open>Errors\<close>

text \<open>
  The error classes of \<open>errors/index.ts\<close>, with the plain \<open>Error\<close> that
  \<open>deriveWalletKey\<close> throws and the \<open>SyntaxError\<close> of \<open>BigInt\<close>.
\<close>

datatype error =
    InvalidIdentityTokenError string "string option"
  | InsufficientIdentitiesError nat int
  | KeyDerivationError "string option"
  | KeyWeaverNotInitializedError
  | Error string
  | SyntaxError string

text \<open>\<open>reason || fallback\<close>: an absent or empty reason gives the fallback.\<close>

definition orDefault :: "string option \<Rightarrow> string \<Rightarrow> string" where
  "orDefault r d = (case r of None \<Rightarrow> d | Some s \<Rightarrow> if s = [] then d else s)"

fun message :: "error \<Rightarrow> string" where
  "message (InvalidIdentityTokenError p r) =
     ''Invalid '' @ p @ '' token: '' @ orDefault r ''token validation failed''"
| "message (InsufficientIdentitiesError provided required) =
     ''Insufficient identities: provided '' @ showNat provided @ '', required '' @ showInt required"
| "message (KeyDerivationError r) = ''Key derivation failed: '' @ orDefault r ''unknown error''"
| "message KeyWeaverNotInitializedError =
     ''Key Weaver system not initialized. Call initKeyWeaver() first.''"
| "message (Error m) = m"
| "message (SyntaxError m) = m"

section \<open>Platform and library primitives\<close>

text \<open>
  The hash, KDF and curve functions come from the noble libraries, \<open>localeCompare\<close> from
  the JavaScript engine; \<open>extractIdentityClaim\<close> and \<open>computeCommitment\<close> live in
  modules of the repository whose text is not available. All are parameters of the model.
  The library functions are total: \<open>deriveWalletKey\<close> passes them a salt it has checked
  and a scalar it has brought into the range of the curve. \<open>extractIdentityClaim\<close> returns
  its error as a value.
\<close>

record IdentityClaim =
  provider :: string
  stableId :: string

record PasskeyAssertion =
  credentialId :: string
  clientDataJSON :: string
  authenticatorData :: string
  signature :: string

datatype SupportedIdentity =
    GoogleIdentity string
  | GitHubIdentity string
  | TwitterIdentity string
  | PasskeyIdentity PasskeyAssertion

text \<open>A stored commitment: the claim it was computed from and the commitment hex
  (\<open>c.claim.provider\<close> and \<open>c.commitment\<close> in the API).\<close>

record Commitment =
  claim :: IdentityClaim
  commitment :: string

record platform =
  sha256 :: "bytes \<Rightarrow> bytes"
  hkdf :: "(bytes \<Rightarrow> bytes) \<Rightarrow> bytes \<Rightarrow> bytes \<Rightarrow> bytes \<Rightarrow> nat \<Rightarrow> bytes"
  keccak_256 :: "bytes \<Rightarrow> bytes"
  getPublicKey :: "string \<Rightarrow> bool \<Rightarrow> bytes"
  localeCompare :: "string \<Rightarrow> string \<Rightarrow> int"
  extractIdentityClaim :: "SupportedIdentity \<Rightarrow> error + IdentityClaim"
  computeCommitment :: "IdentityClaim \<Rightarrow> string \<Rightarrow> Commitment"

section \<open>Salt normalisation (crypto/keyDerivation.ts)\<close>

definition isValidHexSalt :: "string \<Rightarrow> bool" where
  "isValidHexSalt salt = (length salt = 64 \<and> list_all isHexChar salt)"

definition normalizeSalt :: "platform \<Rightarrow> string \<Rightarrow> string" where
  "normalizeSalt P input =
     (if isValidHexSalt input then toLowerCase input
      else bytesToHex (sha256 P (utf8ToBytes input)))"

definition isValidSalt :: "string \<Rightarrow> bool" where
  "isValidSalt salt = isValidHexSalt salt"

text \<open>The pattern \<open>^[0-9a-f]{64}$\<close>.\<close>

definition matchesLowerHex64 :: "string \<Rightarrow> bool" where
  "matchesLowerHex64 s = (length s = 64 \<and> list_all isLowerHexChar s)"

text \<open>SHA-256 returns 32 bytes.\<close>

definition sha256_is_32 :: "platform \<Rightarrow> bool" where
  "sha256_is_32 P = (\<forall>bs. length (sha256 P bs) = 32)"

section \<open>Canonical form and key derivation (crypto/keyDerivation.ts)\<close>

record TypedCommitment =
  tc_provider :: string
  tc_commitment :: string

record DerivedKeyResult =
  privateKey :: string
  address :: string

text \<open>\<open>Array.prototype.sort\<close> with a comparator: a stable insertion sort, an element
  going before the first one it does not compare greater than.\<close>

fun insort_cmp :: "('a \<Rightarrow> 'a \<Rightarrow> int) \<Rightarrow> 'a \<Rightarrow> 'a list \<Rightarrow> 'a list" where
  "insort_cmp cmp x [] = [x]"
| "insort_cmp cmp x (y # ys) = (if cmp x y \<le> 0 then x # y # ys else y # insort_cmp cmp x ys)"

definition array_sort :: "('a \<Rightarrow> 'a \<Rightarrow> int) \<Rightarrow> 'a list \<Rightarrow> 'a list" where
  "array_sort cmp xs = foldr (insort_cmp cmp) xs []"

text \<open>The comparator passed to \<open>sort\<close> in \<open>canonicalizeCommitments\<close>.\<close>

definition compareCommitments :: "platform \<Rightarrow> TypedCommitment \<Rightarrow> TypedCommitment \<Rightarrow> int" where
  "compareCommitments P a b =
     (let providerCompare = localeCompare P (tc_provider a) (tc_provider b)
      in if providerCompare \<noteq> 0 then providerCompare
         else localeCompare P (tc_commitment a) (tc_commitment b))"

definition normalizeCommitment :: "TypedCommitment \<Rightarrow> TypedCommitment" where
  "normalizeCommitment c =
     \<lparr>tc_provider = trim (toLowerCase (tc_provider c)), tc_commitment = tc_commitment c\<rparr>"

definition serializeCommitment :: "TypedCommitment \<Rightarrow> string" where
  "serializeCommitment c = tc_provider c @ '':'' @ tc_commitment c"

definition canonicalizeCommitments :: "platform \<Rightarrow> TypedCommitment list \<Rightarrow> string" where
  "canonicalizeCommitments P commitments =
     (let normalized = map normalizeCommitment commitments;
          sorted = array_sort (compareCommitments P) normalized
      in join ''|'' (map serializeCommitment sorted))"

definition CURVE_ORDER :: int where
  "CURVE_ORDER = 0xFFFFFFFFFFFFFFFFFFFFFFFFFFFFFFFEBAAEDCE6AF48A03BBFD25E8CD0364141"

text \<open>\<open>BigInt('0x' + h)\<close>: a \<open>SyntaxError\<close> unless \<open>h\<close> is a non-empty string of
  hexadecimal digits.\<close>

definition bigIntOfHex :: "string \<Rightarrow> error + int" where
  "bigIntOfHex h =
     (if h = [] \<or> \<not> list_all isHexChar h
      then Inl (SyntaxError (''Cannot convert 0x'' @ h @ '' to a BigInt''))
      else Inr (foldl (\<lambda>a c. 16 * a + int (hexVal c)) 0 h))"

text \<open>Step 5 of \<open>deriveWalletKey\<close>: the key material as a scalar of the curve.\<close>

definition keyMaterialToScalar :: "bytes \<Rightarrow> error + int" where
  "keyMaterialToScalar keyMaterial =
     (case bigIntOfHex (bytesToHex keyMaterial) of
        Inl e \<Rightarrow> Inl e
      | Inr scalar \<Rightarrow>
          if scalar = 0 \<or> scalar \<ge> CURVE_ORDER
          then (let scalar' = bigIntRem scalar CURVE_ORDER
                in if scalar' = 0 then Inr 1 else Inr scalar')
          else Inr scalar)"

text \<open>\<open>xs.slice(-n)\<close>: the last \<open>n\<close> elements, all of them when there are fewer.\<close>

definition sliceLast :: "nat \<Rightarrow> 'a list \<Rightarrow> 'a list" where
  "sliceLast n xs = drop (length xs - n) xs"

definition deriveWalletKey ::
  "platform \<Rightarrow> TypedCommitment list \<Rightarrow> int \<Rightarrow> string \<Rightarrow> error + DerivedKeyResult" where
  "deriveWalletKey P commitments threshold salt =
     (if int (length commitments) < threshold
      then Inl (Error (''Insufficient commitments: need at least '' @ showInt threshold
                       @ '', have '' @ showNat (length commitments)))
      else
        let canonicalCommitments = canonicalizeCommitments P commitments
        in if \<not> isValidHexSalt salt
           then Inl (Error (''Invalid salt format: expected 64-char hex string, got ''
                            @ showNat (length salt) @ '' chars''))
           else
             let saltBytes = hexToBytes salt;
                 seedInput = ''key-weaver:v1|'' @ canonicalCommitments @ ''|'' @ salt;
                 seed = sha256 P (utf8ToBytes seedInput);
                 info = utf8ToBytes ''key-weaver-hkdf'';
                 keyMaterial = hkdf P (sha256 P) seed saltBytes info 32
             in case keyMaterialToScalar keyMaterial of
                  Inl e \<Rightarrow> Inl e
                | Inr scalar \<Rightarrow>
                    let privateKey = padStart 64 (CHR ''0'') (bigIntToHex scalar);
                        publicKeyPoint = getPublicKey P privateKey False;
                        publicKeyBytes = drop 1 publicKeyPoint;
                        addressHash = keccak_256 P publicKeyBytes;
                        address = ''0x'' @ bytesToHex (sliceLast 20 addressHash)
                    in Inr \<lparr>privateKey = privateKey, address = address\<rparr>)"

definition validateThreshold :: "TypedCommitment list \<Rightarrow> int \<Rightarrow> bool" where
  "validateThreshold commitments threshold = (int (length commitments) \<ge> threshold)"

section \<open>Initialisation state (api/state.ts)\<close>

record KeyWeaverConfig =
  version :: "string option"

record KeyWeaverState =
  initialized :: bool
  config :: "KeyWeaverConfig option"

text \<open>The module-level \<open>state\<close> when the process starts.\<close>

definition initialState :: KeyWeaverState where
  "initialState = \<lparr>initialized = False, config = None\<rparr>"

definition initializeKeyWeaver :: "KeyWeaverState \<Rightarrow> KeyWeaverConfig \<Rightarrow> KeyWeaverState" where
  "initializeKeyWeaver st cfg = st\<lparr>config := Some cfg, initialized := True\<rparr>"

definition getKeyWeaverConfig :: "KeyWeaverState \<Rightarrow> error + KeyWeaverConfig" where
  "getKeyWeaverConfig st =
     (case (initialized st, config st) of
        (True, Some cfg) \<Rightarrow> Inr cfg
      | _ \<Rightarrow> Inl KeyWeaverNotInitializedError)"

definition isInitialized :: "KeyWeaverState \<Rightarrow> bool" where
  "isInitialized st = initialized st"

section \<open>Commitments and wallets\<close>

text \<open>Modelled from the spec: \<open>validateCommitment\<close> (commitments/index.ts, not available)
  recomputes the commitment for the claim and the salt and compares it with the stored
  commitment hex.\<close>

definition validateCommitment :: "platform \<Rightarrow> IdentityClaim \<Rightarrow> string \<Rightarrow> string \<Rightarrow> bool" where
  "validateCommitment P c salt commitmentHex =
     (commitment (computeCommitment P c salt) = commitmentHex)"

text \<open>Modelled from the spec: \<open>generateCommitments\<close> (commitments/index.ts, not available)
  computes one commitment per claim, in the order of the claims.\<close>

definition generateCommitments :: "platform \<Rightarrow> IdentityClaim list \<Rightarrow> string \<Rightarrow> Commitment list" where
  "generateCommitments P claims salt = map (\<lambda>c. computeCommitment P c salt) claims"

record Wallet =
  wallet_address :: string

text \<open>Modelled from the spec: \<open>createWalletFromPrivateKey\<close> (crypto/index.ts, not
  available) recomputes the address from the private key: the uncompressed public key
  without its format byte, hashed with Keccak-256, the low 20 bytes in hex after \<open>0x\<close>.\<close>

definition createWalletFromPrivateKey :: "platform \<Rightarrow> string \<Rightarrow> Wallet" where
  "createWalletFromPrivateKey P pk =
     \<lparr>wallet_address =
        ''0x'' @ bytesToHex (sliceLast 20 (keccak_256 P (drop 1 (getPublicKey P pk False))))\<rparr>"

section \<open>Registration and recovery (api/index.ts)\<close>

record RegisterWalletResult =
  reg_commitments :: "Commitment list"
  reg_salt :: string
  reg_address :: string
  reg_privateKey :: "string option"

text \<open>In a recovery result \<open>wallet = None\<close> stands for the empty object that the
  failure branch returns.\<close>

record RecoverWalletResult =
  wallet :: "Wallet option"
  matchedCount :: nat
  success :: bool
  rec_privateKey :: "string option"

definition initKeyWeaver :: "KeyWeaverState \<Rightarrow> KeyWeaverConfig \<Rightarrow> KeyWeaverState" where
  "initKeyWeaver st cfg = initializeKeyWeaver st cfg"

text \<open>\<open>identities.map(extractIdentityClaim)\<close>: the first failing proof throws.\<close>

fun extractClaims :: "platform \<Rightarrow> SupportedIdentity list \<Rightarrow> error + IdentityClaim list" where
  "extractClaims P [] = Inr []"
| "extractClaims P (i # is) =
     (case extractIdentityClaim P i of
        Inl e \<Rightarrow> Inl e
      | Inr c \<Rightarrow> (case extractClaims P is of Inl e \<Rightarrow> Inl e | Inr cs \<Rightarrow> Inr (c # cs)))"

text \<open>The \<open>catch\<close> block of both operations: whatever the \<open>try\<close> block throws is
  rethrown as a \<open>KeyDerivationError\<close> carrying the message.\<close>

definition catchKeyDerivation :: "error + 'a \<Rightarrow> error + 'a" where
  "catchKeyDerivation r =
     (case r of Inl e \<Rightarrow> Inl (KeyDerivationError (Some (message e))) | Inr v \<Rightarrow> Inr v)"

definition toTypedCommitment :: "Commitment \<Rightarrow> TypedCommitment" where
  "toTypedCommitment c =
     \<lparr>tc_provider = trim (toLowerCase (provider (claim c))), tc_commitment = commitment c\<rparr>"

text \<open>\<open>randomSalt\<close> is the value \<open>createRandomSalt()\<close> returns in the call.\<close>

definition registerWallet ::
  "KeyWeaverState \<Rightarrow> platform \<Rightarrow> string \<Rightarrow> SupportedIdentity list \<Rightarrow> int \<Rightarrow> string option \<Rightarrow> bool
     \<Rightarrow> error + RegisterWalletResult" where
  "registerWallet st P randomSalt identities threshold providedSalt exposePrivateKey =
     (case getKeyWeaverConfig st of
        Inl e \<Rightarrow> Inl e
      | Inr _ \<Rightarrow>
          if int (length identities) < threshold
          then Inl (InsufficientIdentitiesError (length identities) threshold)
          else catchKeyDerivation
            (case extractClaims P identities of
               Inl e \<Rightarrow> Inl e
             | Inr claims \<Rightarrow>
                 let rawSalt = (case providedSalt of
                                  None \<Rightarrow> randomSalt
                                | Some s \<Rightarrow> if s = [] then randomSalt else s);
                     salt = normalizeSalt P rawSalt;
                     commitments = generateCommitments P claims salt;
                     typedCommitments = map toTypedCommitment commitments
                 in case deriveWalletKey P typedCommitments threshold salt of
                      Inl e \<Rightarrow> Inl e
                    | Inr d \<Rightarrow>
                        Inr \<lparr>reg_commitments = commitments, reg_salt = salt,
                             reg_address = address d,
                             reg_privateKey =
                               (if exposePrivateKey then Some (privateKey d) else None)\<rparr>))"

text \<open>The matching loop of \<open>recoverWallet\<close>, with its two accumulators.\<close>

fun matchClaims ::
  "platform \<Rightarrow> string \<Rightarrow> Commitment list \<Rightarrow> IdentityClaim list \<Rightarrow> Commitment list \<times> nat
     \<Rightarrow> Commitment list \<times> nat" where
  "matchClaims P salt commitments [] acc = acc"
| "matchClaims P salt commitments (c # cs) (matched, n) =
     (case find (\<lambda>stored. validateCommitment P c salt (commitment stored)) commitments of
        None \<Rightarrow> matchClaims P salt commitments cs (matched, n)
      | Some matchingCommitment \<Rightarrow>
          matchClaims P salt commitments cs (matched @ [matchingCommitment], n + 1))"

definition recoverWallet ::
  "KeyWeaverState \<Rightarrow> platform \<Rightarrow> SupportedIdentity list \<Rightarrow> Commitment list \<Rightarrow> string \<Rightarrow> int \<Rightarrow> bool
     \<Rightarrow> error + RecoverWalletResult" where
  "recoverWallet st P identities commitments rawSalt threshold exposePrivateKey =
     (case getKeyWeaverConfig st of
        Inl e \<Rightarrow> Inl e
      | Inr _ \<Rightarrow>
          let salt = normalizeSalt P rawSalt
          in catchKeyDerivation
            (case extractClaims P identities of
               Inl e \<Rightarrow> Inl e
             | Inr claims \<Rightarrow>
                 let (matchedCommitments, matchedCount) =
                       matchClaims P salt commitments claims ([], 0);
                     success = (int matchedCount \<ge> threshold)
                 in if \<not> success
                    then Inr \<lparr>wallet = None, matchedCount = matchedCount, success = False,
                              rec_privateKey = None\<rparr>
                    else
                      let allTypedCommitments = map toTypedCommitment commitments
                      in case deriveWalletKey P allTypedCommitments threshold salt of
                           Inl e \<Rightarrow> Inl e
                         | Inr d \<Rightarrow>
                             let w = createWalletFromPrivateKey P (privateKey d)
                             in if toLowerCase (wallet_address w) \<noteq> toLowerCase (address d)
                                then Inl (KeyDerivationError
                                            (Some ''Address mismatch during recovery''))
                                else Inr \<lparr>wallet = Some w, matchedCount = matchedCount,
                                          success = True,
                                          rec_privateKey =
                                            (if exposePrivateKey then Some (privateKey d)
                                             else None)\<rparr>))"

section \<open>A small instance of the primitives\<close>

text \<open>
  An instance of the parameters on which the model can be evaluated: the first 32
  bytes of the zero-padded input for the hashes, code-unit order for the collation, and
  an extractor that accepts a Google token of three dot-separated parts, any access
  token and a passkey assertion with a credential identifier.
\<close>

definition sampleHash :: "bytes \<Rightarrow> bytes" where
  "sampleHash bs = take 32 (bs @ replicate 32 0)"

definition sampleCompare :: "string \<Rightarrow> string \<Rightarrow> int" where
  "sampleCompare a b = (if a < b then - 1 else if a = b then 0 else 1)"

fun sampleExtract :: "SupportedIdentity \<Rightarrow> error + IdentityClaim" where
  "sampleExtract (GoogleIdentity t) =
     (if length (filter (\<lambda>c. c = CHR ''.'') t) \<noteq> 2
      then Inl (InvalidIdentityTokenError ''google'' (Some ''Invalid JWT format''))
      else Inr \<lparr>provider = ''google'', stableId = t\<rparr>)"
| "sampleExtract (GitHubIdentity t) = Inr \<lparr>provider = ''github'', stableId = t\<rparr>"
| "sampleExtract (TwitterIdentity t) = Inr \<lparr>provider = ''twitter'', stableId = t\<rparr>"
| "sampleExtract (PasskeyIdentity a) =
     (if credentialId a = []
      then Inl (InvalidIdentityTokenError ''passkey'' (Some ''Missing credentialId''))
      else Inr \<lparr>provider = ''passkey'', stableId = credentialId a\<rparr>)"

definition sampleCommitment :: "IdentityClaim \<Rightarrow> string \<Rightarrow> Commitment" where
  "sampleCommitment c salt =
     \<lparr>claim = c,
      commitment = bytesToHex (sampleHash (utf8ToBytes
        (trim (toLowerCase (provider c)) @ ''|'' @ stableId c @ ''|'' @ salt)))\<rparr>"

definition samplePlatform :: platform where
  "samplePlatform =
     \<lparr>sha256 = sampleHash,
      hkdf = (\<lambda>h ikm s info n. take n (h (ikm @ s @ info))),
      keccak_256 = sampleHash,
      getPublicKey = (\<lambda>pk uncompressed.
                        4 # sampleHash (utf8ToBytes pk) @ sampleHash (utf8ToBytes (rev pk))),
      localeCompare = sampleCompare,
      extractIdentityClaim = sampleExtract,
      computeCommitment = sampleCommitment\<rparr>"

text \<open>An initialised state, a valid salt, three proofs and their commitments.\<close>

definition sampleState :: KeyWeaverState where
  "sampleState = initKeyWeaver initialState \<lparr>version = Some ''v1''\<rparr>"

definition sampleSalt :: string where
  "sampleSalt = ''aaaaaaaaaaaaaaaaaaaaaaaaaaaaaaaaaaaaaaaaaaaaaaaaaaaaaaaaaaaaaaaa''"

definition sampleGoogle :: SupportedIdentity where
  "sampleGoogle = GoogleIdentity ''h.p.s''"

definition sampleGitHub :: SupportedIdentity where
  "sampleGitHub = GitHubIdentity ''gho_t''"

definition samplePasskey :: SupportedIdentity where
  "samplePasskey = PasskeyIdentity \<lparr>credentialId = ''cred'', clientDataJSON = ''{}'',
                                    authenticatorData = ''ad'', signature = ''sig''\<rparr>"

definition sampleStored :: "Commitment list" where
  "sampleStored =
     generateCommitments samplePlatform
       [\<lparr>provider = ''google'', stableId = ''h.p.s''\<rparr>,
        \<lparr>provider = ''github'', stableId = ''gho_t''\<rparr>,
        \<lparr>provider = ''passkey'', stableId = ''cred''\<rparr>] sampleSalt"

text \<open>A collation with an ignorable code unit: U+0001 does not count in a comparison,
  as control characters do not in the collation of the engine. The sample platform
  with this collation, and two commitments whose providers differ in that code unit
  only.\<close>

definition ignorableCompare :: "string \<Rightarrow> string \<Rightarrow> int" where
  "ignorableCompare a b =
     sampleCompare (filter (\<lambda>c. c \<noteq> CHR 0x01) a) (filter (\<lambda>c. c \<noteq> CHR 0x01) b)"

definition ignorablePlatform :: platform where
  "ignorablePlatform = samplePlatform\<lparr>localeCompare := ignorableCompare\<rparr>"

definition sampleA :: TypedCommitment where
  "sampleA = \<lparr>tc_provider = ''a'', tc_commitment = ''ab''\<rparr>"

definition sampleB :: TypedCommitment where
  "sampleB = \<lparr>tc_provider = [CHR ''a'', CHR 0x01], tc_commitment = ''ab''\<rparr>"

section \<open>Reference notions used in the statements\<close>

text \<open>A byte string read as a big-endian unsigned integer.\<close>

definition bigEndianValue :: "bytes \<Rightarrow> int" where
  "bigEndianValue bs = foldl (\<lambda>a b. 256 * a + uint b) 0 bs"

text \<open>A comparator that is a strict total order: it returns 0 on equal arguments only,
  its sign flips when the arguments are swapped, and "less" is transitive.\<close>

definition strictTotalOrder :: "('a \<Rightarrow> 'a \<Rightarrow> int) \<Rightarrow> bool" where
  "strictTotalOrder cmp =
     ((\<forall>a b. (cmp a b = 0) = (a = b))
      \<and> (\<forall>a b. (cmp a b < 0) = (0 < cmp b a))
      \<and> (\<forall>a b c. cmp a b < 0 \<and> cmp b c < 0 \<longrightarrow> cmp a c < 0))"

text \<open>HKDF returns as many bytes as it is asked for; \<open>deriveWalletKey\<close> asks for 32.\<close>

definition hkdf_is_32 :: "platform \<Rightarrow> bool" where
  "hkdf_is_32 P = (\<forall>ikm s info. length (hkdf P (sha256 P) ikm s info 32) = 32)"

text \<open>The number of distinct stored commitments that validate against some presented
  claim.\<close>

definition distinctValidatingStored ::
  "platform \<Rightarrow> string \<Rightarrow> Commitment list \<Rightarrow> IdentityClaim list \<Rightarrow> nat" where
  "distinctValidatingStored P salt stored claims =
     length (remdups (filter (\<lambda>s. list_ex (\<lambda>c. validateCommitment P c salt (commitment s)) claims)
                        stored))"

section \<open>Properties of the hexadecimal helpers\<close>

lemma toLowerCaseChar_hex: "isHexChar c \<Longrightarrow> isLowerHexChar (toLowerCaseChar c)"
  by (auto simp: isHexChar_def isLowerHexChar_def lowerHexChars_def toLowerCaseChar_def char_of_eq_iff)

lemma toLowerCaseChar_lower: "isLowerHexChar c \<Longrightarrow> toLowerCaseChar c = c"
  by (auto simp: isLowerHexChar_def lowerHexChars_def toLowerCaseChar_def)

lemma isLowerHexChar_isHexChar: "isLowerHexChar c \<Longrightarrow> isHexChar c"
  by (auto simp: isHexChar_def isLowerHexChar_def lowerHexChars_def)

lemma hexDigit_lower: "isLowerHexChar (hexDigit n)"
  unfolding isLowerHexChar_def hexDigit_def
  by (rule nth_mem) (simp add: lowerHexChars_def)

lemma bytesToHex_lower: "list_all isLowerHexChar (bytesToHex bs)"
  by (induction bs) (simp_all add: bytesToHex_def byteToHex_def hexDigit_lower)

lemma length_bytesToHex: "length (bytesToHex bs) = 2 * length bs"
  by (induction bs) (simp_all add: bytesToHex_def byteToHex_def)

lemma toLowerCase_hex: "list_all isHexChar s \<Longrightarrow> list_all isLowerHexChar (toLowerCase s)"
  by (induction s) (simp_all add: toLowerCase_def toLowerCaseChar_hex)

lemma toLowerCase_lower: "list_all isLowerHexChar s \<Longrightarrow> toLowerCase s = s"
  by (induction s) (simp_all add: toLowerCase_def toLowerCaseChar_lower)

lemma lower_all_hex: "list_all isLowerHexChar s \<Longrightarrow> list_all isHexChar s"
  by (induction s) (simp_all add: isLowerHexChar_isHexChar)

lemma matchesLowerHex64_valid: "matchesLowerHex64 s \<Longrightarrow> isValidHexSalt s"
  by (simp add: matchesLowerHex64_def isValidHexSalt_def lower_all_hex)

lemma normalizeSalt_lower: "list_all isLowerHexChar (normalizeSalt P y)"
  by (simp add: normalizeSalt_def isValidHexSalt_def toLowerCase_hex bytesToHex_lower)

lemma normalizeSalt_matches:
  assumes "sha256_is_32 P"
  shows "matchesLowerHex64 (normalizeSalt P y)"
proof (cases "isValidHexSalt y")
  case True
  then have "length (toLowerCase y) = 64" and "list_all isLowerHexChar (toLowerCase y)"
    by (simp_all add: isValidHexSalt_def toLowerCase_hex) (simp add: toLowerCase_def)
  with True show ?thesis
    by (simp add: normalizeSalt_def matchesLowerHex64_def)
next
  case False
  with assms show ?thesis
    by (simp add: normalizeSalt_def matchesLowerHex64_def sha256_is_32_def length_bytesToHex
        bytesToHex_lower)
qed

lemma normalizeSalt_fixed:
  assumes "isValidHexSalt s" and "list_all isLowerHexChar s"
  shows "normalizeSalt P s = s"
  using assms by (simp add: normalizeSalt_def toLowerCase_lower)

text \<open>
  C9. When SHA-256 returns 32 bytes, \<open>normalizeSalt\<close> (a total function, with no error
  result) is idempotent, its result matches \<open>^[0-9a-f]{64}$\<close> and passes \<open>isValidSalt\<close>,
  and an input of 64 hexadecimal characters of either case is returned in lowercase.
\<close>

theorem normalizeSalt_idempotent_valid:
  assumes "sha256_is_32 P"
  shows "normalizeSalt P (normalizeSalt P y) = normalizeSalt P y
       \<and> matchesLowerHex64 (normalizeSalt P y)
       \<and> isValidSalt (normalizeSalt P y)
       \<and> (length y = 64 \<and> list_all isHexChar y \<longrightarrow> normalizeSalt P y = toLowerCase y)"
proof -
  have m: "matchesLowerHex64 (normalizeSalt P y)"
    using assms by (rule normalizeSalt_matches)
  then have v: "isValidHexSalt (normalizeSalt P y)"
    by (rule matchesLowerHex64_valid)
  have "normalizeSalt P (normalizeSalt P y) = normalizeSalt P y"
    using v normalizeSalt_lower by (rule normalizeSalt_fixed)
  moreover have "length y = 64 \<and> list_all isHexChar y \<longrightarrow> normalizeSalt P y = toLowerCase y"
    by (simp add: normalizeSalt_def isValidHexSalt_def)
  ultimately show ?thesis
    using m v by (simp add: isValidSalt_def)
qed

lemma length_sampleHash: "length (sampleHash bs) = 32"
  by (simp add: sampleHash_def min_def)

lemma sample_sha256_is_32: "sha256_is_32 samplePlatform"
  by (simp add: sha256_is_32_def samplePlatform_def length_sampleHash)

theorem normalizeSalt_idempotent_valid_witness:
  "sha256_is_32 samplePlatform
   \<and> normalizeSalt samplePlatform (normalizeSalt samplePlatform ''abc'')
       = normalizeSalt samplePlatform ''abc''
   \<and> matchesLowerHex64 (normalizeSalt samplePlatform ''abc'')
   \<and> isValidSalt (normalizeSalt samplePlatform ''abc'')
   \<and> normalizeSalt samplePlatform ''abc'' = ''616263'' @ replicate 58 (CHR ''0'')
   \<and> normalizeSalt samplePlatform
         ''AAAAAAAAAAAAAAAAAAAAAAAAAAAAAAAAAAAAAAAAAAAAAAAAAAAAAAAAAAAAAAAA''
       = ''aaaaaaaaaaaaaaaaaaaaaaaaaaaaaaaaaaaaaaaaaaaaaaaaaaaaaaaaaaaaaaaa''"
proof -
  have v: "normalizeSalt samplePlatform ''abc'' = ''616263'' @ replicate 58 (CHR ''0'')"
    by code_simp
  have u: "length ''AAAAAAAAAAAAAAAAAAAAAAAAAAAAAAAAAAAAAAAAAAAAAAAAAAAAAAAAAAAAAAAA'' = 64
           \<and> list_all isHexChar ''AAAAAAAAAAAAAAAAAAAAAAAAAAAAAAAAAAAAAAAAAAAAAAAAAAAAAAAAAAAAAAAA''"
    by (simp add: isHexChar_def)
  have l: "toLowerCase ''AAAAAAAAAAAAAAAAAAAAAAAAAAAAAAAAAAAAAAAAAAAAAAAAAAAAAAAAAAAAAAAA''
           = ''aaaaaaaaaaaaaaaaaaaaaaaaaaaaaaaaaaaaaaaaaaaaaaaaaaaaaaaaaaaaaaaa''"
    by (simp add: toLowerCase_def toLowerCaseChar_def char_of_eq_iff)
  have "normalizeSalt samplePlatform
          ''AAAAAAAAAAAAAAAAAAAAAAAAAAAAAAAAAAAAAAAAAAAAAAAAAAAAAAAAAAAAAAAA''
        = toLowerCase ''AAAAAAAAAAAAAAAAAAAAAAAAAAAAAAAAAAAAAAAAAAAAAAAAAAAAAAAAAAAAAAAA''"
    using normalizeSalt_idempotent_valid [OF sample_sha256_is_32,
        of "''AAAAAAAAAAAAAAAAAAAAAAAAAAAAAAAAAAAAAAAAAAAAAAAAAAAAAAAAAAAAAAAA''"] u
    by blast
  then have h: "normalizeSalt samplePlatform
          ''AAAAAAAAAAAAAAAAAAAAAAAAAAAAAAAAAAAAAAAAAAAAAAAAAAAAAAAAAAAAAAAA''
        = ''aaaaaaaaaaaaaaaaaaaaaaaaaaaaaaaaaaaaaaaaaaaaaaaaaaaaaaaaaaaaaaaa''"
    unfolding l .
  have "normalizeSalt samplePlatform (normalizeSalt samplePlatform ''abc'')
          = normalizeSalt samplePlatform ''abc''
        \<and> matchesLowerHex64 (normalizeSalt samplePlatform ''abc'')
        \<and> isValidSalt (normalizeSalt samplePlatform ''abc'')"
    using normalizeSalt_idempotent_valid [OF sample_sha256_is_32, of "''abc''"] by blast
  with sample_sha256_is_32 v h show ?thesis by blast
qed

section \<open>Scalar clamping\<close>

lemma hexVal_hexDigit: "hexVal (hexDigit n) = n mod 16"
proof -
  have "\<forall>k \<in> set [0..<16]. hexVal (hexDigit k) = k"
    by code_simp
  moreover have "n mod 16 \<in> set [0..<16]" by simp
  ultimately have "hexVal (hexDigit (n mod 16)) = n mod 16" by blast
  then show ?thesis by (simp add: hexDigit_def)
qed

lemma foldl_byteToHex:
  "foldl (\<lambda>a c. 16 * a + int (hexVal c)) a (byteToHex b) = 256 * a + uint b"
proof -
  have "int (unat b div 16 mod 16) * 16 + int (unat b mod 16) = int (unat b)"
  proof -
    have "unat b < 256" using unsigned_less [of b, where ?'a = nat] by simp
    then have "unat b div 16 mod 16 = unat b div 16" by simp
    then show ?thesis by (simp add: zdiv_int zmod_int)
  qed
  then show ?thesis
    by (simp add: byteToHex_def hexVal_hexDigit)
qed

lemma foldl_bytesToHex:
  "foldl (\<lambda>a c. 16 * a + int (hexVal c)) a (bytesToHex bs) = foldl (\<lambda>a b. 256 * a + uint b) a bs"
proof (induction bs arbitrary: a)
  case Nil
  then show ?case by (simp add: bytesToHex_def)
next
  case (Cons b bs)
  have "bytesToHex (b # bs) = byteToHex b @ bytesToHex bs"
    by (simp add: bytesToHex_def)
  then show ?case
    using Cons.IH [of "256 * a + uint b"] by (simp add: foldl_byteToHex)
qed

lemma bigIntOfHex_bytesToHex:
  assumes "km \<noteq> []"
  shows "bigIntOfHex (bytesToHex km) = Inr (bigEndianValue km)"
proof -
  have "bytesToHex km \<noteq> []"
    using assms length_bytesToHex [of km] by (cases "bytesToHex km") auto
  moreover have "list_all isHexChar (bytesToHex km)"
    by (rule lower_all_hex) (rule bytesToHex_lower)
  ultimately show ?thesis
    by (simp add: bigIntOfHex_def bigEndianValue_def foldl_bytesToHex)
qed

lemma foldl_bigEndian_nonneg: "0 \<le> a \<Longrightarrow> 0 \<le> foldl (\<lambda>a b. 256 * a + uint b) a (bs :: bytes)"
  by (induction bs arbitrary: a) simp_all

lemma bigEndianValue_nonneg: "0 \<le> bigEndianValue bs"
  by (simp add: bigEndianValue_def foldl_bigEndian_nonneg)

lemma foldl_bigEndian_bound:
  "0 \<le> a \<Longrightarrow> foldl (\<lambda>a b. 256 * a + uint b) a (bs :: bytes) < (a + 1) * 256 ^ length bs"
proof (induction bs arbitrary: a)
  case Nil
  then show ?case by simp
next
  case (Cons b bs)
  have "uint b < 256" using uint_lt2p [of b] by simp
  then have "256 * a + uint b + 1 \<le> (a + 1) * 256" by (simp add: algebra_simps)
  moreover have "0 \<le> 256 * a + uint b" using Cons.prems by simp
  ultimately have "foldl (\<lambda>a b. 256 * a + uint b) (256 * a + uint b) bs < ((a + 1) * 256) * 256 ^ length bs"
    using Cons.IH [of "256 * a + uint b"]
    by (meson less_le_trans mult_right_mono zero_le_numeral zero_le_power)
  then show ?case by (simp add: algebra_simps)
qed

lemma bigEndianValue_bound: "bigEndianValue bs < 256 ^ length bs"
  using foldl_bigEndian_bound [of 0 bs] by (simp add: bigEndianValue_def)

lemma CURVE_ORDER_pos: "0 < CURVE_ORDER"
  by (simp add: CURVE_ORDER_def)

lemma CURVE_ORDER_bound: "CURVE_ORDER < 16 ^ 64"
  by (simp add: CURVE_ORDER_def)

lemma bigIntToHex_lower: "0 \<le> i \<Longrightarrow> list_all isLowerHexChar (bigIntToHex i)"
proof (induction i rule: bigIntToHex.induct)
  case (1 i)
  show ?case
  proof (cases "i < 16")
    case True
    with "1.prems" show ?thesis
      by (subst bigIntToHex.simps) (simp add: hexDigit_lower)
  next
    case False
    with "1.prems" "1.IH"(2) have "list_all isLowerHexChar (bigIntToHex (i div 16))"
      by simp
    with False "1.prems" show ?thesis
      by (subst bigIntToHex.simps) (simp add: hexDigit_lower)
  qed
qed

lemma length_bigIntToHex: "0 \<le> i \<Longrightarrow> i < 16 ^ Suc k \<Longrightarrow> length (bigIntToHex i) \<le> Suc k"
proof (induction k arbitrary: i)
  case 0
  then show ?case by (subst bigIntToHex.simps) simp
next
  case (Suc k)
  show ?case
  proof (cases "i < 16")
    case True
    with Suc.prems show ?thesis by (subst bigIntToHex.simps) simp
  next
    case False
    have "i div 16 < 16 ^ Suc k"
    proof -
      have "i < 16 * 16 ^ Suc k" using Suc.prems by simp
      then show ?thesis by (auto simp: div_less_iff_less_mult algebra_simps)
    qed
    moreover have "0 \<le> i div 16" using Suc.prems by simp
    ultimately have "length (bigIntToHex (i div 16)) \<le> Suc k"
      by (rule Suc.IH [rotated])
    with False Suc.prems show ?thesis by (subst bigIntToHex.simps) simp
  qed
qed

lemma privateKey_shape:
  assumes "0 \<le> s" and "s < CURVE_ORDER"
  shows "matchesLowerHex64 (padStart 64 (CHR ''0'') (bigIntToHex s))"
proof -
  have "s < 16 ^ Suc 63" using assms(2) CURVE_ORDER_bound by simp
  with assms(1) have "length (bigIntToHex s) \<le> Suc 63" by (rule length_bigIntToHex)
  moreover have "isLowerHexChar (CHR ''0'')"
    by (simp add: isLowerHexChar_def lowerHexChars_def)
  ultimately show ?thesis
    using bigIntToHex_lower [OF assms(1)]
    by (auto simp: matchesLowerHex64_def padStart_def list_all_iff)
qed


lemma keyMaterialToScalar_returns:
  assumes "km \<noteq> []"
  shows "\<exists>s. keyMaterialToScalar km = Inr s"
  by (simp add: keyMaterialToScalar_def bigIntOfHex_bytesToHex [OF assms] Let_def)

text \<open>
  C6. For every 32-byte key material the scalar step of \<open>deriveWalletKey\<close> returns a
  scalar (it has no failure path): with \<open>v\<close> the big-endian value of the bytes, the scalar
  is \<open>v\<close>, or \<open>v mod CURVE_ORDER\<close> when \<open>v\<close> is 0 or at least the curve order, or 1 when
  that is 0 again. It lies in \<open>[1, CURVE_ORDER - 1]\<close> and is rendered by
  \<open>toString(16).padStart(64, '0')\<close> as exactly 64 lowercase hexadecimal characters.
\<close>

theorem keyMaterialToScalar_total:
  assumes "length km = 32"
  shows "\<exists>s. keyMaterialToScalar km = Inr s
           \<and> s = (let v = bigEndianValue km
                  in if v = 0 \<or> CURVE_ORDER \<le> v
                     then (if v mod CURVE_ORDER = 0 then 1 else v mod CURVE_ORDER)
                     else v)
           \<and> 1 \<le> s \<and> s < CURVE_ORDER
           \<and> matchesLowerHex64 (padStart 64 (CHR ''0'') (bigIntToHex s))"
proof -
  define v where "v = bigEndianValue km"
  define s where "s = (if v = 0 \<or> CURVE_ORDER \<le> v
                       then (if v mod CURVE_ORDER = 0 then 1 else v mod CURVE_ORDER) else v)"
  have "km \<noteq> []" using assms by auto
  then have parse: "bigIntOfHex (bytesToHex km) = Inr v"
    unfolding v_def by (rule bigIntOfHex_bytesToHex)
  have v0: "0 \<le> v" unfolding v_def by (rule bigEndianValue_nonneg)
  then have rem: "bigIntRem v CURVE_ORDER = v mod CURVE_ORDER"
    using CURVE_ORDER_pos by (simp add: bigIntRem_def)
  have res: "keyMaterialToScalar km = Inr s"
    unfolding keyMaterialToScalar_def parse s_def by (simp add: rem Let_def)
  have m0: "0 \<le> v mod CURVE_ORDER" and m1: "v mod CURVE_ORDER < CURVE_ORDER"
    using CURVE_ORDER_pos by simp_all
  have lo: "1 \<le> s"
    using v0 m0 unfolding s_def by auto
  have hi: "s < CURVE_ORDER"
    using m1 CURVE_ORDER_pos unfolding s_def by (auto simp: CURVE_ORDER_def)
  have "matchesLowerHex64 (padStart 64 (CHR ''0'') (bigIntToHex s))"
    using lo hi by (intro privateKey_shape) simp_all
  with res lo hi show ?thesis
    unfolding s_def v_def by (simp add: Let_def)
qed

theorem keyMaterialToScalar_total_witness:
  "length (replicate 32 (255 :: byte)) = 32
   \<and> keyMaterialToScalar (replicate 32 255) = Inr 432420386565659656852420866394968145598
   \<and> (1 :: int) \<le> 432420386565659656852420866394968145598
   \<and> 432420386565659656852420866394968145598 < CURVE_ORDER
   \<and> matchesLowerHex64
        (padStart 64 (CHR ''0'') (bigIntToHex 432420386565659656852420866394968145598))"
proof -
  have len: "length (replicate 32 (255 :: byte)) = 32" by simp
  have val: "keyMaterialToScalar (replicate 32 255) = Inr 432420386565659656852420866394968145598"
    by code_simp
  from keyMaterialToScalar_total [OF len] val len show ?thesis
    by auto
qed

section \<open>Sorting with a comparator\<close>

lemma strictTotalOrder_refl: "strictTotalOrder cmp \<Longrightarrow> cmp a a \<le> 0"
proof -
  assume "strictTotalOrder cmp"
  then have "cmp a a = 0" unfolding strictTotalOrder_def by blast
  then show ?thesis by simp
qed

lemma strictTotalOrder_antisym:
  assumes "strictTotalOrder cmp" and "cmp a b \<le> 0" and "cmp b a \<le> 0"
  shows "a = b"
proof (rule ccontr)
  assume "a \<noteq> b"
  with assms(1) have "cmp a b \<noteq> 0" by (simp add: strictTotalOrder_def)
  with assms(2) have "cmp a b < 0" by simp
  with assms(1) have "0 < cmp b a" by (simp add: strictTotalOrder_def)
  with assms(3) show False by simp
qed

lemma strictTotalOrder_trans:
  assumes "strictTotalOrder cmp" and "cmp a b \<le> 0" and "cmp b c \<le> 0"
  shows "cmp a c \<le> 0"
proof (cases "a = b \<or> b = c")
  case True
  with assms show ?thesis by auto
next
  case False
  with assms(1) have "cmp a b \<noteq> 0" and "cmp b c \<noteq> 0"
    by (simp_all add: strictTotalOrder_def)
  with assms(2,3) have "cmp a b < 0 \<and> cmp b c < 0" by simp
  with assms(1) have "cmp a c < 0" unfolding strictTotalOrder_def by blast
  then show ?thesis by simp
qed

lemma strictTotalOrder_total:
  assumes "strictTotalOrder cmp" and "\<not> cmp a b \<le> 0"
  shows "cmp b a \<le> 0"
proof -
  from assms(2) have "0 < cmp a b" by simp
  with assms(1) have "cmp b a < 0" by (simp add: strictTotalOrder_def)
  then show ?thesis by simp
qed

lemma set_insort_cmp: "set (insort_cmp cmp x xs) = insert x (set xs)"
  by (induction xs) auto

lemma mset_insort_cmp: "mset (insort_cmp cmp x xs) = add_mset x (mset xs)"
  by (induction xs) auto

lemma mset_array_sort: "mset (array_sort cmp xs) = mset xs"
  by (induction xs) (simp_all add: array_sort_def mset_insort_cmp)

lemma sorted_insort_cmp:
  assumes "strictTotalOrder cmp"
  shows "sorted_wrt (\<lambda>a b. cmp a b \<le> 0) xs \<Longrightarrow> sorted_wrt (\<lambda>a b. cmp a b \<le> 0) (insort_cmp cmp x xs)"
proof (induction xs)
  case Nil
  then show ?case by simp
next
  case (Cons y ys)
  show ?case
  proof (cases "cmp x y \<le> 0")
    case True
    with Cons.prems show ?thesis
      by (auto intro: strictTotalOrder_trans [OF assms])
  next
    case False
    then have "cmp y x \<le> 0" by (rule strictTotalOrder_total [OF assms])
    with False Cons show ?thesis
      by (auto simp: set_insort_cmp)
  qed
qed

lemma sorted_array_sort:
  assumes "strictTotalOrder cmp"
  shows "sorted_wrt (\<lambda>a b. cmp a b \<le> 0) (array_sort cmp xs)"
proof (induction xs)
  case Nil
  then show ?case by (simp add: array_sort_def)
next
  case (Cons x xs)
  then show ?case
    using sorted_insort_cmp [OF assms, of "array_sort cmp xs" x] by (simp add: array_sort_def)
qed

lemma sorted_cmp_unique:
  assumes "strictTotalOrder cmp"
  shows "sorted_wrt (\<lambda>a b. cmp a b \<le> 0) xs \<Longrightarrow> sorted_wrt (\<lambda>a b. cmp a b \<le> 0) ys
         \<Longrightarrow> mset xs = mset ys \<Longrightarrow> xs = ys"
proof (induction xs arbitrary: ys)
  case Nil
  then show ?case by simp
next
  case (Cons x xs)
  from Cons.prems(3) obtain y ys' where ys: "ys = y # ys'"
    by (cases ys) auto
  have "x \<in> set ys" and "y \<in> set (x # xs)"
    using Cons.prems(3) ys by (metis list.set_intros(1) mset_eq_setD)+
  have xy: "x = y"
  proof (rule ccontr)
    assume ne: "x \<noteq> y"
    with \<open>x \<in> set ys\<close> ys have "x \<in> set ys'" by simp
    with Cons.prems(2) ys have "cmp y x \<le> 0" by simp
    moreover from ne \<open>y \<in> set (x # xs)\<close> have "y \<in> set xs" by simp
    with Cons.prems(1) have "cmp x y \<le> 0" by simp
    ultimately show False
      using ne strictTotalOrder_antisym [OF assms] by blast
  qed
  with Cons.prems ys have "xs = ys'"
    by (intro Cons.IH) simp_all
  with xy ys show ?case by simp
qed

lemma array_sort_permutation:
  assumes "strictTotalOrder cmp" and "mset xs = mset ys"
  shows "array_sort cmp xs = array_sort cmp ys"
  using assms
  by (intro sorted_cmp_unique [OF assms(1)] sorted_array_sort) (simp_all add: mset_array_sort)


section \<open>The canonical form\<close>

lemma compareCommitments_strictTotalOrder:
  assumes "strictTotalOrder (localeCompare P)"
  shows "strictTotalOrder (compareCommitments P)"
proof -
  let ?c = "localeCompare P"
  have z: "\<And>a b. (?c a b = 0) = (a = b)"
    and f: "\<And>a b. (?c a b < 0) = (0 < ?c b a)"
    and t: "\<And>a b c. ?c a b < 0 \<Longrightarrow> ?c b c < 0 \<Longrightarrow> ?c a c < 0"
    using assms unfolding strictTotalOrder_def by blast+
  have "(compareCommitments P a b = 0) = (a = b)" for a b
    by (auto simp: compareCommitments_def Let_def z)
  moreover have "(compareCommitments P a b < 0) = (0 < compareCommitments P b a)" for a b
    using f [of "tc_provider a" "tc_provider b"] f [of "tc_commitment a" "tc_commitment b"]
      z [of "tc_provider a" "tc_provider b"] z [of "tc_provider b" "tc_provider a"]
    by (auto simp: compareCommitments_def Let_def)
  moreover have "compareCommitments P a b < 0 \<and> compareCommitments P b c < 0
                 \<longrightarrow> compareCommitments P a c < 0" for a b c
  proof
    assume h: "compareCommitments P a b < 0 \<and> compareCommitments P b c < 0"
    have ab: "?c (tc_provider a) (tc_provider b) < 0
              \<or> (tc_provider a = tc_provider b \<and> ?c (tc_commitment a) (tc_commitment b) < 0)"
      using h z [of "tc_provider a" "tc_provider b"]
      by (auto simp: compareCommitments_def Let_def split: if_splits)
    have bc: "?c (tc_provider b) (tc_provider c) < 0
              \<or> (tc_provider b = tc_provider c \<and> ?c (tc_commitment b) (tc_commitment c) < 0)"
      using h z [of "tc_provider b" "tc_provider c"]
      by (auto simp: compareCommitments_def Let_def split: if_splits)
    from ab bc have "?c (tc_provider a) (tc_provider c) < 0
              \<or> (tc_provider a = tc_provider c \<and> ?c (tc_commitment a) (tc_commitment c) < 0)"
      by (metis t)
    then show "compareCommitments P a c < 0"
      using z [of "tc_provider a" "tc_provider c"]
      by (auto simp: compareCommitments_def Let_def)
  qed
  ultimately show ?thesis
    unfolding strictTotalOrder_def by blast
qed

lemma compareCommitments_le:
  assumes "strictTotalOrder (localeCompare P)"
  shows "(compareCommitments P a b \<le> 0) =
         (localeCompare P (tc_provider a) (tc_provider b) < 0
          \<or> (tc_provider a = tc_provider b
              \<and> localeCompare P (tc_commitment a) (tc_commitment b) \<le> 0))"
proof -
  have z: "(localeCompare P (tc_provider a) (tc_provider b) = 0) = (tc_provider a = tc_provider b)"
    using assms unfolding strictTotalOrder_def by blast
  show ?thesis
    using z by (auto simp: compareCommitments_def Let_def)
qed

lemma canonicalizeCommitments_mset:
  assumes "strictTotalOrder (localeCompare P)" and "mset C = mset C'"
  shows "canonicalizeCommitments P C = canonicalizeCommitments P C'"
proof -
  have "mset (map normalizeCommitment C) = mset (map normalizeCommitment C')"
    using assms(2) by (metis mset_map)
  with compareCommitments_strictTotalOrder [OF assms(1)]
  have "array_sort (compareCommitments P) (map normalizeCommitment C)
        = array_sort (compareCommitments P) (map normalizeCommitment C')"
    by (rule array_sort_permutation)
  then show ?thesis
    by (simp add: canonicalizeCommitments_def Let_def)
qed

text \<open>
  For a collation that is a strict total order, the canonical form does not depend on
  the order of the commitments, and it joins with \<open>|\<close> the records
  \<open>provider:commitment\<close> of the commitments, each provider lowercased and trimmed,
  arranged in increasing order by provider first and by commitment hex on equal
  providers.
\<close>

lemma canonicalizeCommitments_sorted_form:
  assumes "strictTotalOrder (localeCompare P)" and "mset C = mset C'"
  shows "canonicalizeCommitments P C = canonicalizeCommitments P C'
       \<and> (\<exists>sorted.
             mset sorted = mset (map (\<lambda>c. \<lparr>tc_provider = trim (toLowerCase (tc_provider c)),
                                             tc_commitment = tc_commitment c\<rparr>) C)
           \<and> sorted_wrt (\<lambda>a b. localeCompare P (tc_provider a) (tc_provider b) < 0
                               \<or> (tc_provider a = tc_provider b
                                   \<and> localeCompare P (tc_commitment a) (tc_commitment b) \<le> 0))
                sorted
           \<and> canonicalizeCommitments P C
               = join ''|'' (map (\<lambda>c. tc_provider c @ '':'' @ tc_commitment c) sorted))"
proof -
  have ord: "strictTotalOrder (compareCommitments P)"
    using assms(1) by (rule compareCommitments_strictTotalOrder)
  let ?s = "array_sort (compareCommitments P) (map normalizeCommitment C)"
  have n: "normalizeCommitment = (\<lambda>c. \<lparr>tc_provider = trim (toLowerCase (tc_provider c)),
                                         tc_commitment = tc_commitment c\<rparr>)"
    by (rule ext) (simp add: normalizeCommitment_def)
  have "mset ?s = mset (map (\<lambda>c. \<lparr>tc_provider = trim (toLowerCase (tc_provider c)),
                                    tc_commitment = tc_commitment c\<rparr>) C)"
    unfolding n [symmetric] by (rule mset_array_sort)
  moreover have "sorted_wrt (\<lambda>a b. localeCompare P (tc_provider a) (tc_provider b) < 0
                               \<or> (tc_provider a = tc_provider b
                                   \<and> localeCompare P (tc_commitment a) (tc_commitment b) \<le> 0)) ?s"
    using sorted_array_sort [OF ord, of "map normalizeCommitment C"]
    by (simp add: compareCommitments_le [OF assms(1)])
  moreover have "canonicalizeCommitments P C
                 = join ''|'' (map (\<lambda>c. tc_provider c @ '':'' @ tc_commitment c) ?s)"
    by (simp add: canonicalizeCommitments_def serializeCommitment_def [abs_def] Let_def)
  moreover have "canonicalizeCommitments P C = canonicalizeCommitments P C'"
    using assms by (rule canonicalizeCommitments_mset)
  ultimately show ?thesis by blast
qed

lemma sampleCompare_strictTotalOrder: "strictTotalOrder (localeCompare samplePlatform)"
  by (auto simp: strictTotalOrder_def samplePlatform_def sampleCompare_def)

section \<open>Key derivation\<close>

lemma deriveWalletKey_unfold:
  assumes "K \<le> int (length C)" and "isValidHexSalt salt"
  shows "deriveWalletKey P C K salt =
         (case keyMaterialToScalar
                 (hkdf P (sha256 P)
                    (sha256 P (utf8ToBytes (''key-weaver:v1|'' @ canonicalizeCommitments P C
                                             @ ''|'' @ salt)))
                    (hexToBytes salt) (utf8ToBytes ''key-weaver-hkdf'') 32) of
            Inl e \<Rightarrow> Inl e
          | Inr s \<Rightarrow>
              Inr \<lparr>privateKey = padStart 64 (CHR ''0'') (bigIntToHex s),
                   address = ''0x'' @ bytesToHex (sliceLast 20 (keccak_256 P
                     (drop 1 (getPublicKey P (padStart 64 (CHR ''0'') (bigIntToHex s)) False))))\<rparr>)"
  using assms by (simp add: deriveWalletKey_def Let_def split: sum.splits)

lemma deriveWalletKey_returns:
  assumes "K \<le> int (length C)" and "isValidHexSalt salt" and "hkdf_is_32 P"
  shows "\<exists>r. deriveWalletKey P C K salt = Inr r"
proof -
  let ?km = "hkdf P (sha256 P)
                    (sha256 P (utf8ToBytes (''key-weaver:v1|'' @ canonicalizeCommitments P C
                                             @ ''|'' @ salt)))
                    (hexToBytes salt) (utf8ToBytes ''key-weaver-hkdf'') 32"
  have "length ?km = 32" using assms(3) unfolding hkdf_is_32_def by blast
  then have "?km \<noteq> []" by auto
  then obtain s where "keyMaterialToScalar ?km = Inr s"
    using keyMaterialToScalar_returns by blast
  then show ?thesis
    by (simp add: deriveWalletKey_unfold [OF assms(1,2)])
qed


lemma sample_hkdf_is_32: "hkdf_is_32 samplePlatform"
  by (simp add: hkdf_is_32_def samplePlatform_def length_sampleHash)

lemma sampleSalt_valid: "isValidHexSalt sampleSalt"
  by (simp add: isValidHexSalt_def isHexChar_def sampleSalt_def)

text \<open>
  The threshold enters \<open>deriveWalletKey\<close> through the length check only; and for a
  collation that is a strict total order the result is the same for any reordering
  of the commitments.
\<close>

lemma deriveWalletKey_threshold_independent:
  assumes "K1 \<le> int (length C)" and "K2 \<le> int (length C)"
  shows "deriveWalletKey P C K1 salt = deriveWalletKey P C K2 salt"
  using assms by (simp add: deriveWalletKey_def)

lemma deriveWalletKey_mset:
  assumes "strictTotalOrder (localeCompare P)" and "mset C = mset C'"
    and "K1 \<le> int (length C)" and "K2 \<le> int (length C)"
  shows "deriveWalletKey P C K1 salt = deriveWalletKey P C' K2 salt
       \<and> (isValidHexSalt salt \<and> hkdf_is_32 P \<longrightarrow> (\<exists>r. deriveWalletKey P C K1 salt = Inr r))"
proof -
  have len: "length C' = length C"
    using assms(2) by (metis mset_eq_length)
  have canon: "canonicalizeCommitments P C = canonicalizeCommitments P C'"
    using assms(1,2) by (rule canonicalizeCommitments_mset)
  have "deriveWalletKey P C K1 salt = deriveWalletKey P C' K2 salt"
  proof (cases "isValidHexSalt salt")
    case True
    have k2: "K2 \<le> int (length C')" using assms(4) len by simp
    show ?thesis
      by (simp add: deriveWalletKey_unfold [OF assms(3) True] deriveWalletKey_unfold [OF k2 True]
          canon)
  next
    case False
    with assms(3,4) len show ?thesis
      by (simp add: deriveWalletKey_def)
  qed
  moreover have "isValidHexSalt salt \<and> hkdf_is_32 P \<longrightarrow> (\<exists>r. deriveWalletKey P C K1 salt = Inr r)"
    using deriveWalletKey_returns [OF assms(3)] by blast
  ultimately show ?thesis by blast
qed

text \<open>
  C8. For a commitment list that reaches the threshold and a valid salt, the seed is
  SHA-256 of the UTF-8 bytes of \<open>key-weaver:v1\<close>, \<open>|\<close>, the canonical form, \<open>|\<close> and the
  salt hex; the key material is HKDF over SHA-256 of that seed with the salt bytes and
  the info string \<open>key-weaver-hkdf\<close>, 32 bytes long; the result of \<open>deriveWalletKey\<close> is
  the key of the scalar of that key material. In the canonical form \<open>:\<close> stands between
  provider and commitment hex and \<open>|\<close> between records.
\<close>

theorem deriveWalletKey_seed_domain_separation:
  assumes "K \<le> int (length C)" and "isValidHexSalt salt"
  shows "(let canonical = join ''|'' (map (\<lambda>c. tc_provider c @ '':'' @ tc_commitment c)
                            (array_sort (compareCommitments P) (map normalizeCommitment C)));
              seed = sha256 P (utf8ToBytes (''key-weaver:v1'' @ ''|'' @ canonical @ ''|'' @ salt));
              km = hkdf P (sha256 P) seed (hexToBytes salt) (utf8ToBytes ''key-weaver-hkdf'') 32
          in deriveWalletKey P C K salt =
             (case keyMaterialToScalar km of
                Inl e \<Rightarrow> Inl e
              | Inr s \<Rightarrow>
                  Inr \<lparr>privateKey = padStart 64 (CHR ''0'') (bigIntToHex s),
                       address = ''0x'' @ bytesToHex (sliceLast 20 (keccak_256 P
                         (drop 1 (getPublicKey P (padStart 64 (CHR ''0'') (bigIntToHex s))
                                    False))))\<rparr>))"
proof -
  have "canonicalizeCommitments P C
        = join ''|'' (map (\<lambda>c. tc_provider c @ '':'' @ tc_commitment c)
                            (array_sort (compareCommitments P) (map normalizeCommitment C)))"
    by (simp add: canonicalizeCommitments_def serializeCommitment_def [abs_def] Let_def)
  then show ?thesis
    using deriveWalletKey_unfold [OF assms, of P] by (simp add: Let_def)
qed

theorem deriveWalletKey_seed_domain_separation_witness:
  "(1 :: int) \<le> int (length [\<lparr>tc_provider = ''google'', tc_commitment = ''d6''\<rparr>])
   \<and> isValidHexSalt sampleSalt
   \<and> deriveWalletKey samplePlatform [\<lparr>tc_provider = ''google'', tc_commitment = ''d6''\<rparr>] 1
        sampleSalt
     = (case keyMaterialToScalar
               (hkdf samplePlatform (sha256 samplePlatform)
                  (sha256 samplePlatform
                     (utf8ToBytes (''key-weaver:v1'' @ ''|'' @ ''google:d6'' @ ''|''
                                   @ sampleSalt)))
                  (hexToBytes sampleSalt) (utf8ToBytes ''key-weaver-hkdf'') 32) of
          Inl e \<Rightarrow> Inl e
        | Inr s \<Rightarrow>
            Inr \<lparr>privateKey = padStart 64 (CHR ''0'') (bigIntToHex s),
                 address = ''0x'' @ bytesToHex (sliceLast 20 (keccak_256 samplePlatform
                   (drop 1 (getPublicKey samplePlatform
                              (padStart 64 (CHR ''0'') (bigIntToHex s)) False))))\<rparr>)"
proof -
  have k: "(1 :: int) \<le> int (length [\<lparr>tc_provider = ''google'', tc_commitment = ''d6''\<rparr>])"
    by simp
  have c: "join ''|'' (map (\<lambda>c. tc_provider c @ '':'' @ tc_commitment c)
             (array_sort (compareCommitments samplePlatform)
                (map normalizeCommitment [\<lparr>tc_provider = ''google'', tc_commitment = ''d6''\<rparr>])))
           = ''google:d6''"
    by code_simp
  from deriveWalletKey_seed_domain_separation [OF k sampleSalt_valid, of samplePlatform]
  have "deriveWalletKey samplePlatform [\<lparr>tc_provider = ''google'', tc_commitment = ''d6''\<rparr>] 1
        sampleSalt
     = (case keyMaterialToScalar
               (hkdf samplePlatform (sha256 samplePlatform)
                  (sha256 samplePlatform
                     (utf8ToBytes (''key-weaver:v1'' @ ''|'' @ ''google:d6'' @ ''|''
                                   @ sampleSalt)))
                  (hexToBytes sampleSalt) (utf8ToBytes ''key-weaver-hkdf'') 32) of
          Inl e \<Rightarrow> Inl e
        | Inr s \<Rightarrow>
            Inr \<lparr>privateKey = padStart 64 (CHR ''0'') (bigIntToHex s),
                 address = ''0x'' @ bytesToHex (sliceLast 20 (keccak_256 samplePlatform
                   (drop 1 (getPublicKey samplePlatform
                              (padStart 64 (CHR ''0'') (bigIntToHex s)) False))))\<rparr>)"
    unfolding Let_def c .
  with k sampleSalt_valid show ?thesis by blast
qed

section \<open>Registration and recovery\<close>

lemma getKeyWeaverConfig_init: "getKeyWeaverConfig (initKeyWeaver st cfg) = Inr cfg"
  by (simp add: getKeyWeaverConfig_def initKeyWeaver_def initializeKeyWeaver_def)

lemma getKeyWeaverConfig_initial: "getKeyWeaverConfig initialState = Inl KeyWeaverNotInitializedError"
  by (simp add: getKeyWeaverConfig_def initialState_def)

lemma catchKeyDerivation_not_uninitialized:
  "catchKeyDerivation r \<noteq> Inl KeyWeaverNotInitializedError"
  by (simp add: catchKeyDerivation_def split: sum.splits)

lemma matchClaims_count:
  "snd (matchClaims P salt cs claims (m, n)) =
   n + length (filter (\<lambda>c. list_ex (\<lambda>s. validateCommitment P c salt (commitment s)) cs) claims)"
proof (induction claims arbitrary: m n)
  case Nil
  then show ?case by simp
next
  case (Cons c claims)
  show ?case
  proof (cases "find (\<lambda>s. validateCommitment P c salt (commitment s)) cs")
    case None
    then have "\<not> list_ex (\<lambda>s. validateCommitment P c salt (commitment s)) cs"
      by (simp add: find_None_iff list_ex_iff)
    with None Cons.IH [of m n] show ?thesis by simp
  next
    case (Some a)
    then have "list_ex (\<lambda>s. validateCommitment P c salt (commitment s)) cs"
      by (metis find_None_iff list_ex_iff option.distinct(1))
    with Some Cons.IH [of "m @ [a]" "n + 1"] show ?thesis by simp
  qed
qed

lemma recoverWallet_unfold:
  assumes "getKeyWeaverConfig st = Inr cfg" and "extractClaims P ids = Inr claims"
  shows "recoverWallet st P ids cs rawSalt K e =
         (let salt = normalizeSalt P rawSalt;
              m = length (filter (\<lambda>c. list_ex (\<lambda>s. validateCommitment P c salt (commitment s)) cs)
                            claims)
          in if int m < K
             then Inr \<lparr>wallet = None, matchedCount = m, success = False, rec_privateKey = None\<rparr>
             else catchKeyDerivation
               (case deriveWalletKey P (map toTypedCommitment cs) K salt of
                  Inl err \<Rightarrow> Inl err
                | Inr d \<Rightarrow>
                    if toLowerCase (wallet_address (createWalletFromPrivateKey P (privateKey d)))
                       \<noteq> toLowerCase (address d)
                    then Inl (KeyDerivationError (Some ''Address mismatch during recovery''))
                    else Inr \<lparr>wallet = Some (createWalletFromPrivateKey P (privateKey d)),
                              matchedCount = m, success = True,
                              rec_privateKey = (if e then Some (privateKey d) else None)\<rparr>))"
proof -
  obtain mc n where mc: "matchClaims P (normalizeSalt P rawSalt) cs claims ([], 0) = (mc, n)"
    by (cases "matchClaims P (normalizeSalt P rawSalt) cs claims ([], 0)") auto
  have n: "n = length (filter (\<lambda>c. list_ex (\<lambda>s. validateCommitment P c (normalizeSalt P rawSalt)
                                         (commitment s)) cs) claims)"
    using matchClaims_count [of P "normalizeSalt P rawSalt" cs claims "[]" 0] mc by simp
  have "recoverWallet st P ids cs rawSalt K e =
        catchKeyDerivation
          (if \<not> K \<le> int n
           then Inr \<lparr>wallet = None, matchedCount = n, success = False, rec_privateKey = None\<rparr>
           else case deriveWalletKey P (map toTypedCommitment cs) K (normalizeSalt P rawSalt) of
                  Inl err \<Rightarrow> Inl err
                | Inr d \<Rightarrow>
                    if toLowerCase (wallet_address (createWalletFromPrivateKey P (privateKey d)))
                       \<noteq> toLowerCase (address d)
                    then Inl (KeyDerivationError (Some ''Address mismatch during recovery''))
                    else Inr \<lparr>wallet = Some (createWalletFromPrivateKey P (privateKey d)),
                              matchedCount = n, success = True,
                              rec_privateKey = (if e then Some (privateKey d) else None)\<rparr>)"
    by (simp add: recoverWallet_def assms Let_def mc cong: sum.case_cong split: sum.splits)
  also have "\<dots> = (if int n < K
             then Inr \<lparr>wallet = None, matchedCount = n, success = False, rec_privateKey = None\<rparr>
             else catchKeyDerivation
               (case deriveWalletKey P (map toTypedCommitment cs) K (normalizeSalt P rawSalt) of
                  Inl err \<Rightarrow> Inl err
                | Inr d \<Rightarrow>
                    if toLowerCase (wallet_address (createWalletFromPrivateKey P (privateKey d)))
                       \<noteq> toLowerCase (address d)
                    then Inl (KeyDerivationError (Some ''Address mismatch during recovery''))
                    else Inr \<lparr>wallet = Some (createWalletFromPrivateKey P (privateKey d)),
                              matchedCount = n, success = True,
                              rec_privateKey = (if e then Some (privateKey d) else None)\<rparr>))"
    by (simp add: catchKeyDerivation_def not_le)
  finally show ?thesis
    unfolding n Let_def .
qed

lemma recoverWallet_extract_fails:
  assumes "getKeyWeaverConfig st = Inr cfg" and "extractClaims P ids = Inl err"
  shows "recoverWallet st P ids cs rawSalt K e = Inl (KeyDerivationError (Some (message err)))"
  by (simp add: recoverWallet_def assms catchKeyDerivation_def Let_def)

lemma registerWallet_extract_fails:
  assumes "getKeyWeaverConfig st = Inr cfg" and "extractClaims P ids = Inl err"
    and "K \<le> int (length ids)"
  shows "registerWallet st P rnd ids K saltOpt e = Inl (KeyDerivationError (Some (message err)))"
  using assms(3) by (simp add: registerWallet_def assms(1,2) catchKeyDerivation_def)

text \<open>
  C10. In the state of a process in which \<open>initKeyWeaver\<close> has not been called,
  \<open>registerWallet\<close> and \<open>recoverWallet\<close> fail with \<open>KeyWeaverNotInitializedError\<close> whatever
  their arguments and whatever the primitives would do; in a state reached by a call of
  \<open>initKeyWeaver\<close> they never fail with that error.
\<close>

theorem not_initialized_error:
  "registerWallet initialState P rnd ids K saltOpt e = Inl KeyWeaverNotInitializedError
   \<and> recoverWallet initialState P ids cs salt K e = Inl KeyWeaverNotInitializedError
   \<and> registerWallet (initKeyWeaver st cfg) P rnd ids K saltOpt e \<noteq> Inl KeyWeaverNotInitializedError
   \<and> recoverWallet (initKeyWeaver st cfg) P ids cs salt K e \<noteq> Inl KeyWeaverNotInitializedError"
proof -
  have "registerWallet initialState P rnd ids K saltOpt e = Inl KeyWeaverNotInitializedError"
    by (simp add: registerWallet_def getKeyWeaverConfig_initial)
  moreover have "recoverWallet initialState P ids cs salt K e = Inl KeyWeaverNotInitializedError"
    by (simp add: recoverWallet_def getKeyWeaverConfig_initial)
  moreover have "registerWallet (initKeyWeaver st cfg) P rnd ids K saltOpt e
                 \<noteq> Inl KeyWeaverNotInitializedError"
    unfolding registerWallet_def getKeyWeaverConfig_init
    by (simp add: catchKeyDerivation_not_uninitialized)
  moreover have "recoverWallet (initKeyWeaver st cfg) P ids cs salt K e
                 \<noteq> Inl KeyWeaverNotInitializedError"
    unfolding recoverWallet_def getKeyWeaverConfig_init
    by (simp add: catchKeyDerivation_not_uninitialized Let_def)
  ultimately show ?thesis by blast
qed

theorem not_initialized_error_witness:
  "registerWallet initialState samplePlatform ''r'' [GitHubIdentity ''t''] 1 None False
     = Inl KeyWeaverNotInitializedError
   \<and> recoverWallet initialState samplePlatform [GitHubIdentity ''t''] [] ''s'' 1 False
     = Inl KeyWeaverNotInitializedError
   \<and> registerWallet (initKeyWeaver initialState \<lparr>version = Some ''v1''\<rparr>) samplePlatform ''r''
       [GitHubIdentity ''t''] 1 None False \<noteq> Inl KeyWeaverNotInitializedError
   \<and> recoverWallet (initKeyWeaver initialState \<lparr>version = Some ''v1''\<rparr>) samplePlatform
       [GitHubIdentity ''t''] [] ''s'' 1 False \<noteq> Inl KeyWeaverNotInitializedError"
  by (rule not_initialized_error)

lemma extractClaims_cong:
  "extractIdentityClaim P' = extractIdentityClaim P \<Longrightarrow> extractClaims P' ids = extractClaims P ids"
  by (induction ids) (simp_all split: sum.splits)

lemma matchClaims_cong:
  "computeCommitment P' = computeCommitment P
   \<Longrightarrow> matchClaims P' salt cs claims acc = matchClaims P salt cs claims acc"
proof (induction claims arbitrary: acc)
  case Nil
  then show ?case by simp
next
  case (Cons c claims)
  obtain m n where acc: "acc = (m, n)" by (cases acc)
  have v: "validateCommitment P' c salt = validateCommitment P c salt"
    using Cons.prems by (simp add: validateCommitment_def fun_eq_iff)
  show ?case
    unfolding acc using Cons.IH [OF Cons.prems] by (simp add: v split: option.splits)
qed

lemma recoverWallet_failure_independent:
  assumes "getKeyWeaverConfig st = Inr cfg" and "extractClaims P ids = Inr claims"
    and "int (length (filter (\<lambda>c. list_ex (\<lambda>s. validateCommitment P c (normalizeSalt P salt)
                                          (commitment s)) cs) claims)) < K"
  shows "recoverWallet st (P\<lparr>hkdf := h, keccak_256 := k, getPublicKey := g\<rparr>) ids cs salt K e
         = recoverWallet st P ids cs salt K e"
proof -
  let ?P' = "P\<lparr>hkdf := h, keccak_256 := k, getPublicKey := g\<rparr>"
  have ex: "extractClaims ?P' ids = Inr claims"
    using assms(2) extractClaims_cong [of ?P' P ids] by simp
  have ns: "normalizeSalt ?P' salt = normalizeSalt P salt"
    by (simp add: normalizeSalt_def)
  have v: "validateCommitment ?P' = validateCommitment P"
    by (simp add: validateCommitment_def fun_eq_iff)
  show ?thesis
    using assms(3)
    by (simp add: recoverWallet_unfold [OF assms(1) ex] recoverWallet_unfold [OF assms(1,2)]
        ns v Let_def)
qed

text \<open>
  C5. A recovery result has \<open>success\<close> true exactly when \<open>matchedCount\<close> reaches the
  threshold. After initialisation and a successful extraction of the claims, with
  the count of presented claims that have a matching stored commitment below the
  threshold, \<open>recoverWallet\<close> returns (it does not throw) the value with that count,
  \<open>success = False\<close>, the empty wallet and no private key, and the same value whatever
  HKDF, Keccak-256 and the curve would compute.
\<close>

theorem recoverWallet_success_iff_threshold:
  assumes "getKeyWeaverConfig st = Inr cfg" and "extractClaims P ids = Inr claims"
  shows "(let m = length (filter (\<lambda>c. list_ex (\<lambda>s. validateCommitment P c (normalizeSalt P salt)
                                            (commitment s)) cs) claims)
          in (int m < K \<longrightarrow>
                recoverWallet st P ids cs salt K e
                  = Inr \<lparr>wallet = None, matchedCount = m, success = False, rec_privateKey = None\<rparr>
                \<and> recoverWallet st (P\<lparr>hkdf := h, keccak_256 := k, getPublicKey := g\<rparr>) ids cs salt K e
                  = recoverWallet st P ids cs salt K e)
           \<and> (\<forall>r. recoverWallet st P ids cs salt K e = Inr r \<longrightarrow>
                  matchedCount r = m \<and> success r = (K \<le> int (matchedCount r))))"
proof -
  define m where "m = length (filter (\<lambda>c. list_ex (\<lambda>s. validateCommitment P c (normalizeSalt P salt)
                                            (commitment s)) cs) claims)"
  have fail: "recoverWallet st P ids cs salt K e
              = Inr \<lparr>wallet = None, matchedCount = m, success = False, rec_privateKey = None\<rparr>"
    if "int m < K"
    using that by (simp add: recoverWallet_unfold [OF assms] Let_def m_def)
  have indep: "recoverWallet st (P\<lparr>hkdf := h, keccak_256 := k, getPublicKey := g\<rparr>) ids cs salt K e
               = recoverWallet st P ids cs salt K e"
    if "int m < K"
    using that unfolding m_def by (rule recoverWallet_failure_independent [OF assms])
  have ret: "matchedCount r = m \<and> success r = (K \<le> int (matchedCount r))"
    if r: "recoverWallet st P ids cs salt K e = Inr r" for r
  proof (cases "int m < K")
    case True
    with fail r show ?thesis by auto
  next
    case False
    with r show ?thesis
      by (auto simp: recoverWallet_unfold [OF assms] Let_def m_def [symmetric]
          catchKeyDerivation_def split: sum.splits if_splits)
  qed
  from fail indep ret show ?thesis
    unfolding m_def Let_def by blast
qed


lemma sampleState_config: "getKeyWeaverConfig sampleState = Inr \<lparr>version = Some ''v1''\<rparr>"
  unfolding sampleState_def by (rule getKeyWeaverConfig_init)

lemma sampleSalt_lower: "list_all isLowerHexChar sampleSalt"
  by (simp add: isLowerHexChar_def lowerHexChars_def sampleSalt_def)

lemmas sample_eval =
  samplePlatform_def sampleCommitment_def sampleHash_def utf8ToBytes_def utf8Char_def
  toLowerCase_def toLowerCaseChar_def trim_def isWhiteSpace_def sampleSalt_def bytesToHex_def
  byteToHex_def hexDigit_def lowerHexChars_def

lemma sampleStored_value:
  "sampleStored =
     [\<lparr>claim = \<lparr>provider = ''google'', stableId = ''h.p.s''\<rparr>,
       commitment = ''676f6f676c657c682e702e737c61616161616161616161616161616161616161''\<rparr>,
      \<lparr>claim = \<lparr>provider = ''github'', stableId = ''gho_t''\<rparr>,
       commitment = ''6769746875627c67686f5f747c61616161616161616161616161616161616161''\<rparr>,
      \<lparr>claim = \<lparr>provider = ''passkey'', stableId = ''cred''\<rparr>,
       commitment = ''706173736b65797c637265647c61616161616161616161616161616161616161''\<rparr>]"
  by (simp add: sampleStored_def generateCommitments_def sample_eval)

lemma sampleSalt_normal: "normalizeSalt samplePlatform sampleSalt = sampleSalt"
  using sampleSalt_valid sampleSalt_lower by (rule normalizeSalt_fixed)

theorem recoverWallet_success_iff_threshold_witness:
  "getKeyWeaverConfig sampleState = Inr \<lparr>version = Some ''v1''\<rparr>
   \<and> extractClaims samplePlatform [sampleGoogle] = Inr [\<lparr>provider = ''google'', stableId = ''h.p.s''\<rparr>]
   \<and> recoverWallet sampleState samplePlatform [sampleGoogle] sampleStored sampleSalt 2 False
       = Inr \<lparr>wallet = None, matchedCount = 1, success = False, rec_privateKey = None\<rparr>"
proof -
  have ex: "extractClaims samplePlatform [sampleGoogle]
            = Inr [\<lparr>provider = ''google'', stableId = ''h.p.s''\<rparr>]"
    by (simp add: samplePlatform_def sampleGoogle_def)
  have m: "length (filter (\<lambda>c. list_ex (\<lambda>s. validateCommitment samplePlatform c
                                   (normalizeSalt samplePlatform sampleSalt) (commitment s))
                             sampleStored)
                     [\<lparr>provider = ''google'', stableId = ''h.p.s''\<rparr>]) = 1"
    unfolding sampleSalt_normal
    by (simp add: sampleStored_def generateCommitments_def validateCommitment_def)
  from recoverWallet_success_iff_threshold [OF sampleState_config ex, of sampleSalt sampleStored 2]
    sampleState_config ex
  show ?thesis
    unfolding m Let_def by simp
qed

lemma extractClaims_append_fail:
  "extractClaims P pre = Inr cl \<Longrightarrow> extractIdentityClaim P x = Inl err
   \<Longrightarrow> extractClaims P (pre @ x # post) = Inl err"
  by (induction pre arbitrary: cl) (auto split: sum.splits)

text \<open>
  C7 (amended). After initialisation, when the first proof that \<open>extractIdentityClaim\<close>
  rejects is rejected with \<open>InvalidIdentityTokenError\<close> for a provider and a reason,
  \<open>recoverWallet\<close> fails with \<open>KeyDerivationError\<close> whose reason is the message of that
  error, \<open>Invalid <provider> token: <reason>\<close>; so does \<open>registerWallet\<close> when the number
  of identities reaches the threshold.
\<close>

theorem malformed_proof_wrapped:
  assumes "getKeyWeaverConfig st = Inr cfg"
    and "ids = pre @ x # post"
    and "extractClaims P pre = Inr cl"
    and "extractIdentityClaim P x = Inl (InvalidIdentityTokenError p r)"
  shows "recoverWallet st P ids cs salt K e
           = Inl (KeyDerivationError
                    (Some (''Invalid '' @ p @ '' token: '' @ orDefault r ''token validation failed'')))
       \<and> (K \<le> int (length ids) \<longrightarrow>
            registerWallet st P rnd ids K saltOpt e
              = Inl (KeyDerivationError
                       (Some (''Invalid '' @ p @ '' token: ''
                              @ orDefault r ''token validation failed''))))"
proof -
  have ex: "extractClaims P ids = Inl (InvalidIdentityTokenError p r)"
    unfolding assms(2) using assms(3,4) by (rule extractClaims_append_fail)
  show ?thesis
    using recoverWallet_extract_fails [OF assms(1) ex]
      registerWallet_extract_fails [OF assms(1) ex]
    by simp
qed

theorem malformed_proof_wrapped_witness:
  "getKeyWeaverConfig sampleState = Inr \<lparr>version = Some ''v1''\<rparr>
   \<and> [sampleGitHub, GoogleIdentity ''not-a-jwt''] = [sampleGitHub] @ GoogleIdentity ''not-a-jwt'' # []
   \<and> extractClaims samplePlatform [sampleGitHub] = Inr [\<lparr>provider = ''github'', stableId = ''gho_t''\<rparr>]
   \<and> extractIdentityClaim samplePlatform (GoogleIdentity ''not-a-jwt'')
       = Inl (InvalidIdentityTokenError ''google'' (Some ''Invalid JWT format''))
   \<and> recoverWallet sampleState samplePlatform [sampleGitHub, GoogleIdentity ''not-a-jwt'']
        sampleStored sampleSalt 2 False
       = Inl (KeyDerivationError (Some ''Invalid google token: Invalid JWT format''))
   \<and> registerWallet sampleState samplePlatform ''r'' [sampleGitHub, GoogleIdentity ''not-a-jwt'']
        2 None False
       = Inl (KeyDerivationError (Some ''Invalid google token: Invalid JWT format''))"
proof -
  have a: "[sampleGitHub, GoogleIdentity ''not-a-jwt'']
           = [sampleGitHub] @ GoogleIdentity ''not-a-jwt'' # []"
    by simp
  have b: "extractClaims samplePlatform [sampleGitHub]
           = Inr [\<lparr>provider = ''github'', stableId = ''gho_t''\<rparr>]"
    by (simp add: samplePlatform_def sampleGitHub_def)
  have c: "extractIdentityClaim samplePlatform (GoogleIdentity ''not-a-jwt'')
           = Inl (InvalidIdentityTokenError ''google'' (Some ''Invalid JWT format''))"
    by (simp add: samplePlatform_def)
  have r: "recoverWallet sampleState samplePlatform [sampleGitHub, GoogleIdentity ''not-a-jwt'']
             sampleStored sampleSalt 2 False
           = Inl (KeyDerivationError (Some ''Invalid google token: Invalid JWT format''))"
    using malformed_proof_wrapped [OF sampleState_config a b c, where cs = sampleStored
        and salt = sampleSalt and K = 2 and e = False and rnd = "''r''" and saltOpt = None]
    by (simp add: orDefault_def)
  have g: "registerWallet sampleState samplePlatform ''r'' [sampleGitHub, GoogleIdentity ''not-a-jwt'']
             2 None False
           = Inl (KeyDerivationError (Some ''Invalid google token: Invalid JWT format''))"
    using malformed_proof_wrapped [OF sampleState_config a b c, where cs = sampleStored
        and salt = sampleSalt and K = 2 and e = False and rnd = "''r''" and saltOpt = None]
    by (simp add: orDefault_def)
  show ?thesis
    by (intro conjI) (rule sampleState_config a b c r g)+
qed

text \<open>
  C7, as stated, fails: a Google token that does not have three parts is rejected by
  the extractor with \<open>InvalidIdentityTokenError\<close>, and both operations fail with
  \<open>KeyDerivationError\<close> instead.
\<close>

theorem malformed_proof_not_surfaced_counterexample:
  "extractIdentityClaim samplePlatform (GoogleIdentity ''not-a-jwt'')
     = Inl (InvalidIdentityTokenError ''google'' (Some ''Invalid JWT format''))
   \<and> registerWallet sampleState samplePlatform ''r'' [GoogleIdentity ''not-a-jwt''] 1 None False
       = Inl (KeyDerivationError (Some ''Invalid google token: Invalid JWT format''))
   \<and> registerWallet sampleState samplePlatform ''r'' [GoogleIdentity ''not-a-jwt''] 1 None False
       \<noteq> Inl (InvalidIdentityTokenError ''google'' (Some ''Invalid JWT format''))
   \<and> recoverWallet sampleState samplePlatform [GoogleIdentity ''not-a-jwt''] sampleStored
        sampleSalt 1 False
       = Inl (KeyDerivationError (Some ''Invalid google token: Invalid JWT format''))
   \<and> recoverWallet sampleState samplePlatform [GoogleIdentity ''not-a-jwt''] sampleStored
        sampleSalt 1 False
       \<noteq> Inl (InvalidIdentityTokenError ''google'' (Some ''Invalid JWT format''))"
proof -
  have c: "extractIdentityClaim samplePlatform (GoogleIdentity ''not-a-jwt'')
           = Inl (InvalidIdentityTokenError ''google'' (Some ''Invalid JWT format''))"
    by (simp add: samplePlatform_def)
  then have ex: "extractClaims samplePlatform [GoogleIdentity ''not-a-jwt'']
           = Inl (InvalidIdentityTokenError ''google'' (Some ''Invalid JWT format''))"
    by simp
  have k: "1 \<le> int (length [GoogleIdentity ''not-a-jwt''])" by simp
  have r: "recoverWallet sampleState samplePlatform [GoogleIdentity ''not-a-jwt''] sampleStored
             sampleSalt 1 False
           = Inl (KeyDerivationError (Some ''Invalid google token: Invalid JWT format''))"
    using recoverWallet_extract_fails [OF sampleState_config ex, of sampleStored sampleSalt 1 False]
    by (simp add: orDefault_def)
  have g: "registerWallet sampleState samplePlatform ''r'' [GoogleIdentity ''not-a-jwt''] 1 None False
           = Inl (KeyDerivationError (Some ''Invalid google token: Invalid JWT format''))"
    using registerWallet_extract_fails [OF sampleState_config ex k, of "''r''" None False]
    by (simp add: orDefault_def)
  have r': "recoverWallet sampleState samplePlatform [GoogleIdentity ''not-a-jwt''] sampleStored
             sampleSalt 1 False
           \<noteq> Inl (InvalidIdentityTokenError ''google'' (Some ''Invalid JWT format''))"
    unfolding r by simp
  have g': "registerWallet sampleState samplePlatform ''r'' [GoogleIdentity ''not-a-jwt''] 1 None False
           \<noteq> Inl (InvalidIdentityTokenError ''google'' (Some ''Invalid JWT format''))"
    unfolding g by simp
  show ?thesis
    by (intro conjI) (rule c r g r' g')+
qed

lemma deriveWalletKey_Inr_conditions:
  assumes "deriveWalletKey P C K salt = Inr d"
  shows "K \<le> int (length C) \<and> isValidHexSalt salt"
  using assms by (auto simp: deriveWalletKey_def Let_def split: if_splits)

lemma deriveWalletKey_Inr_address:
  assumes "deriveWalletKey P C K salt = Inr d"
  shows "createWalletFromPrivateKey P (privateKey d) = \<lparr>wallet_address = address d\<rparr>"
proof -
  from assms have c: "K \<le> int (length C)" "isValidHexSalt salt"
    using deriveWalletKey_Inr_conditions by blast+
  from assms show ?thesis
    by (auto simp: deriveWalletKey_unfold [OF c] createWalletFromPrivateKey_def split: sum.splits)
qed

lemma recoverWallet_Inr_count:
  assumes "getKeyWeaverConfig st = Inr cfg" and "extractClaims P ids = Inr claims"
    and "recoverWallet st P ids cs salt K e = Inr r"
  shows "matchedCount r = length (filter (\<lambda>c. list_ex (\<lambda>s. validateCommitment P c
                                     (normalizeSalt P salt) (commitment s)) cs) claims)"
  using assms(3)
  by (auto simp: recoverWallet_unfold [OF assms(1,2)] Let_def catchKeyDerivation_def
      split: sum.splits if_splits)

lemma recoverWallet_returns:
  assumes "getKeyWeaverConfig st = Inr cfg" and "extractClaims P ids = Inr claims"
    and "K \<le> int (length (filter (\<lambda>c. list_ex (\<lambda>s. validateCommitment P c
                                     (normalizeSalt P salt) (commitment s)) cs) claims))"
    and "deriveWalletKey P (map toTypedCommitment cs) K (normalizeSalt P salt) = Inr d"
  shows "recoverWallet st P ids cs salt K e =
         Inr \<lparr>wallet = Some \<lparr>wallet_address = address d\<rparr>,
              matchedCount = length (filter (\<lambda>c. list_ex (\<lambda>s. validateCommitment P c
                                     (normalizeSalt P salt) (commitment s)) cs) claims),
              success = True,
              rec_privateKey = (if e then Some (privateKey d) else None)\<rparr>"
  using assms(3)
  by (simp add: recoverWallet_unfold [OF assms(1,2)] Let_def assms(4) catchKeyDerivation_def
      deriveWalletKey_Inr_address [OF assms(4)])

lemma extractClaims_length: "extractClaims P ids = Inr claims \<Longrightarrow> length claims = length ids"
  by (induction ids arbitrary: claims) (auto split: sum.splits)

lemma extractClaims_Inl_or_Inr:
  "recoverWallet st P ids cs salt K e = Inr r
   \<Longrightarrow> \<exists>cfg claims. getKeyWeaverConfig st = Inr cfg \<and> extractClaims P ids = Inr claims"
  by (auto simp: recoverWallet_def catchKeyDerivation_def Let_def split: sum.splits)

text \<open>
  C2 (amended). In a recovery result \<open>matchedCount\<close> is the number of presented claims
  for which some stored commitment validates: each presented claim counts at most once,
  a stored commitment is not used up by a match, and \<open>matchedCount\<close> never exceeds the
  number of presented proofs.
\<close>

theorem matchedCount_counts_presented_claims:
  assumes "recoverWallet st P ids cs salt K e = Inr r"
  shows "\<exists>claims. extractClaims P ids = Inr claims
           \<and> matchedCount r = length (filter (\<lambda>c. list_ex (\<lambda>s. validateCommitment P c
                                         (normalizeSalt P salt) (commitment s)) cs) claims)
           \<and> matchedCount r \<le> length ids"
proof -
  from assms obtain cfg claims
    where cfg: "getKeyWeaverConfig st = Inr cfg" and ex: "extractClaims P ids = Inr claims"
    using extractClaims_Inl_or_Inr by blast
  have m: "matchedCount r = length (filter (\<lambda>c. list_ex (\<lambda>s. validateCommitment P c
                                     (normalizeSalt P salt) (commitment s)) cs) claims)"
    using cfg ex assms by (rule recoverWallet_Inr_count)
  then have "matchedCount r \<le> length claims" by simp
  then have "matchedCount r \<le> length ids"
    using extractClaims_length [OF ex] by simp
  with ex m show ?thesis by blast
qed


lemma sample_extract_google_twice:
  "extractClaims samplePlatform [sampleGoogle, sampleGoogle]
   = Inr [\<lparr>provider = ''google'', stableId = ''h.p.s''\<rparr>,
          \<lparr>provider = ''google'', stableId = ''h.p.s''\<rparr>]"
  by (simp add: samplePlatform_def sampleGoogle_def)

lemma sample_google_matches:
  "list_ex (\<lambda>s. validateCommitment samplePlatform \<lparr>provider = ''google'', stableId = ''h.p.s''\<rparr>
                    (normalizeSalt samplePlatform sampleSalt) (commitment s)) sampleStored"
  unfolding sampleSalt_normal
  by (simp add: sampleStored_def generateCommitments_def validateCommitment_def)

theorem matchedCount_counts_presented_claims_witness:
  "recoverWallet sampleState samplePlatform [sampleGoogle, sampleGoogle] sampleStored sampleSalt 3
     False
     = Inr \<lparr>wallet = None, matchedCount = 2, success = False, rec_privateKey = None\<rparr>
   \<and> extractClaims samplePlatform [sampleGoogle, sampleGoogle]
       = Inr [\<lparr>provider = ''google'', stableId = ''h.p.s''\<rparr>,
              \<lparr>provider = ''google'', stableId = ''h.p.s''\<rparr>]
   \<and> (2 :: nat) \<le> length [sampleGoogle, sampleGoogle]"
proof -
  have h: "recoverWallet sampleState samplePlatform [sampleGoogle, sampleGoogle] sampleStored
             sampleSalt 3 False
           = Inr \<lparr>wallet = None, matchedCount = 2, success = False, rec_privateKey = None\<rparr>"
    by (simp add: recoverWallet_unfold [OF sampleState_config sample_extract_google_twice]
        sample_google_matches Let_def)
  from matchedCount_counts_presented_claims [OF h]
  have "matchedCount \<lparr>wallet = None, matchedCount = 2, success = False, rec_privateKey = None\<rparr>
        \<le> length [sampleGoogle, sampleGoogle]"
    by blast
  then have "(2 :: nat) \<le> length [sampleGoogle, sampleGoogle]" by simp
  with h sample_extract_google_twice show ?thesis by blast
qed

lemma length_sampleStored: "length sampleStored = 3"
  by (simp add: sampleStored_def generateCommitments_def)

lemma registerWallet_Inr_elim:
  assumes "registerWallet st P rnd ids K saltOpt e = Inr reg"
  obtains cfg claims d where
    "getKeyWeaverConfig st = Inr cfg"
    "K \<le> int (length ids)"
    "extractClaims P ids = Inr claims"
    "deriveWalletKey P
       (map toTypedCommitment
          (generateCommitments P claims
             (normalizeSalt P (case saltOpt of None \<Rightarrow> rnd | Some s \<Rightarrow> if s = [] then rnd else s))))
       K (normalizeSalt P (case saltOpt of None \<Rightarrow> rnd | Some s \<Rightarrow> if s = [] then rnd else s))
     = Inr d"
    "reg = \<lparr>reg_commitments =
              generateCommitments P claims
                (normalizeSalt P (case saltOpt of None \<Rightarrow> rnd | Some s \<Rightarrow> if s = [] then rnd else s)),
            reg_salt = normalizeSalt P (case saltOpt of None \<Rightarrow> rnd | Some s \<Rightarrow> if s = [] then rnd else s),
            reg_address = address d,
            reg_privateKey = (if e then Some (privateKey d) else None)\<rparr>"
  using assms
  by (auto simp: registerWallet_def catchKeyDerivation_def Let_def split: sum.splits if_splits)

lemma registerWallet_returns:
  assumes "getKeyWeaverConfig st = Inr cfg" and "K \<le> int (length ids)"
    and "extractClaims P ids = Inr claims"
    and "sha256_is_32 P" and "hkdf_is_32 P"
  shows "\<exists>reg. registerWallet st P rnd ids K saltOpt e = Inr reg"
proof -
  let ?salt = "normalizeSalt P (case saltOpt of None \<Rightarrow> rnd | Some s \<Rightarrow> if s = [] then rnd else s)"
  have v: "isValidHexSalt ?salt"
    using assms(4) by (intro matchesLowerHex64_valid normalizeSalt_matches)
  have k: "K \<le> int (length (map toTypedCommitment (generateCommitments P claims ?salt)))"
    using assms(2) extractClaims_length [OF assms(3)] by (simp add: generateCommitments_def)
  obtain d where "deriveWalletKey P (map toTypedCommitment (generateCommitments P claims ?salt))
                    K ?salt = Inr d"
    using deriveWalletKey_returns [OF k v assms(5)] by blast
  then show ?thesis
    using assms(2) by (simp add: registerWallet_def assms(1,3) catchKeyDerivation_def Let_def)
qed

lemma extractClaims_member:
  "extractClaims P ids = Inr claims \<Longrightarrow> i \<in> set ids
   \<Longrightarrow> \<exists>c \<in> set claims. extractIdentityClaim P i = Inr c"
  by (induction ids arbitrary: claims) (auto split: sum.splits)

lemma extractClaims_subset:
  assumes "extractClaims P ids = Inr claims"
  shows "set sub \<subseteq> set ids
         \<Longrightarrow> \<exists>cl. extractClaims P sub = Inr cl \<and> set cl \<subseteq> set claims \<and> length cl = length sub"
proof (induction sub)
  case Nil
  then show ?case by simp
next
  case (Cons i sub)
  then obtain cl where cl: "extractClaims P sub = Inr cl" "set cl \<subseteq> set claims"
    "length cl = length sub"
    by auto
  from Cons.prems obtain c where c: "c \<in> set claims" "extractIdentityClaim P i = Inr c"
    using extractClaims_member [OF assms, of i] by auto
  with cl show ?case by simp
qed

lemma own_commitment_matches:
  assumes "set cl \<subseteq> set claims"
  shows "filter (\<lambda>c. list_ex (\<lambda>s. validateCommitment P c salt (commitment s))
                        (generateCommitments P claims salt)) cl = cl"
proof -
  have "list_ex (\<lambda>s. validateCommitment P c salt (commitment s)) (generateCommitments P claims salt)"
    if "c \<in> set cl" for c
  proof -
    from that assms have "computeCommitment P c salt \<in> set (generateCommitments P claims salt)"
      by (auto simp: generateCommitments_def)
    then show ?thesis
      unfolding list_ex_iff validateCommitment_def by blast
  qed
  then show ?thesis by (simp add: filter_id_conv)
qed

text \<open>
  C1. After a registration that returned commitments and a salt, a recovery with the
  same threshold that presents any sub-multiset of the registered proofs, in any order
  and at least as many as the threshold, returns: every presented proof matches,
  \<open>success\<close> is true, and the key is the result of \<open>deriveWalletKey\<close> on all the stored
  commitments, so the wallet address is the registered address and the private key is
  the registered private key.
\<close>

theorem recovery_rederives_registered_key:
  assumes "registerWallet st P rnd ids K saltOpt e1 = Inr reg"
    and "mset sub \<subseteq># mset ids"
    and "K \<le> int (length sub)"
  shows "\<exists>pk. reg_privateKey reg = (if e1 then Some pk else None)
           \<and> deriveWalletKey P (map toTypedCommitment (reg_commitments reg)) K (reg_salt reg)
               = Inr \<lparr>privateKey = pk, address = reg_address reg\<rparr>
           \<and> recoverWallet st P sub (reg_commitments reg) (reg_salt reg) K e2
               = Inr \<lparr>wallet = Some \<lparr>wallet_address = reg_address reg\<rparr>,
                      matchedCount = length sub, success = True,
                      rec_privateKey = (if e2 then Some pk else None)\<rparr>"
proof -
  let ?salt = "normalizeSalt P (case saltOpt of None \<Rightarrow> rnd | Some s \<Rightarrow> if s = [] then rnd else s)"
  from assms(1) obtain cfg claims d where
    cfg: "getKeyWeaverConfig st = Inr cfg" and
    ex: "extractClaims P ids = Inr claims" and
    d: "deriveWalletKey P (map toTypedCommitment (generateCommitments P claims ?salt)) K ?salt = Inr d"
    and reg: "reg = \<lparr>reg_commitments = generateCommitments P claims ?salt, reg_salt = ?salt,
                     reg_address = address d,
                     reg_privateKey = (if e1 then Some (privateKey d) else None)\<rparr>"
    by (rule registerWallet_Inr_elim)
  have valid: "isValidHexSalt ?salt"
    using deriveWalletKey_Inr_conditions [OF d] by blast
  have fixed: "normalizeSalt P ?salt = ?salt"
    using valid normalizeSalt_lower by (rule normalizeSalt_fixed)
  have "set sub \<subseteq> set ids"
    using assms(2) by (metis set_mset_mono set_mset_mset)
  then obtain cl where cl: "extractClaims P sub = Inr cl" "set cl \<subseteq> set claims"
    "length cl = length sub"
    using extractClaims_subset [OF ex] by blast
  have count: "length (filter (\<lambda>c. list_ex (\<lambda>s. validateCommitment P c (normalizeSalt P ?salt)
                                   (commitment s)) (generateCommitments P claims ?salt)) cl)
               = length sub"
    unfolding fixed own_commitment_matches [OF cl(2)] by (rule cl(3))
  have k: "K \<le> int (length (filter (\<lambda>c. list_ex (\<lambda>s. validateCommitment P c (normalizeSalt P ?salt)
                                   (commitment s)) (generateCommitments P claims ?salt)) cl))"
    unfolding count by (rule assms(3))
  have d': "deriveWalletKey P (map toTypedCommitment (generateCommitments P claims ?salt)) K
              (normalizeSalt P ?salt) = Inr d"
    unfolding fixed by (rule d)
  have "recoverWallet st P sub (generateCommitments P claims ?salt) ?salt K e2
        = Inr \<lparr>wallet = Some \<lparr>wallet_address = address d\<rparr>, matchedCount = length sub,
               success = True, rec_privateKey = (if e2 then Some (privateKey d) else None)\<rparr>"
    using recoverWallet_returns [OF cfg cl(1) k d', of e2] unfolding count .
  moreover have "d = \<lparr>privateKey = privateKey d, address = address d\<rparr>" by simp
  ultimately show ?thesis
    using d unfolding reg by (intro exI [of _ "privateKey d"]) simp
qed


section \<open>The sample registration and recovery\<close>

lemma sample_canonical:
  "canonicalizeCommitments samplePlatform (map toTypedCommitment sampleStored) =
   ''github:6769746875627c67686f5f747c61616161616161616161616161616161616161|google:676f6f676c657c682e702e737c61616161616161616161616161616161616161|passkey:706173736b65797c637265647c61616161616161616161616161616161616161''"
  unfolding sampleStored_value by code_simp


lemma sample_keyMaterial:
  "hkdf samplePlatform (sha256 samplePlatform)
     (sha256 samplePlatform (utf8ToBytes (''key-weaver:v1|''
        @ canonicalizeCommitments samplePlatform (map toTypedCommitment sampleStored) @ ''|'' @ sampleSalt)))
     (hexToBytes sampleSalt) (utf8ToBytes ''key-weaver-hkdf'') 32
   = utf8ToBytes ''key-weaver:v1|github:67697468756''"
  unfolding sample_canonical
  by (simp add: sample_eval)

lemma sample_scalar:
  "keyMaterialToScalar (utf8ToBytes ''key-weaver:v1|github:67697468756'')
   = Inr 48576762689031550368037085818585754156911389366095042694591771448613608568118"
  by (simp add: keyMaterialToScalar_def bigIntOfHex_def isHexChar_def hexVal_def CURVE_ORDER_def
      sample_eval)

lemma sample_privateKey:
  "padStart 64 (CHR ''0'')
     (bigIntToHex 48576762689031550368037085818585754156911389366095042694591771448613608568118)
   = ''6b65792d7765617665723a76317c6769746875623a3637363937343638373536''"
  by (simp add: padStart_def bigIntToHex.simps hexDigit_def lowerHexChars_def)

lemma sample_address:
  "''0x'' @ bytesToHex (sliceLast 20 (keccak_256 samplePlatform (drop 1 (getPublicKey samplePlatform
      ''6b65792d7765617665723a76317c6769746875623a3637363937343638373536'' False))))
   = ''0x3631373636353732336137363331376336373639''"
  by (simp add: sliceLast_def sample_eval)

lemma sample_deriveWalletKey:
  "deriveWalletKey samplePlatform (map toTypedCommitment sampleStored) 2 sampleSalt
   = Inr \<lparr>privateKey = ''6b65792d7765617665723a76317c6769746875623a3637363937343638373536'',
          address = ''0x3631373636353732336137363331376336373639''\<rparr>"
proof -
  have k: "2 \<le> int (length (map toTypedCommitment sampleStored))"
    by (simp add: length_sampleStored)
  show ?thesis
    unfolding deriveWalletKey_unfold [OF k sampleSalt_valid] sample_keyMaterial sample_scalar
    by (simp only: sum.case sample_privateKey sample_address)
qed


lemma sample_extract_all:
  "extractClaims samplePlatform [sampleGoogle, sampleGitHub, samplePasskey]
   = Inr [\<lparr>provider = ''google'', stableId = ''h.p.s''\<rparr>,
          \<lparr>provider = ''github'', stableId = ''gho_t''\<rparr>,
          \<lparr>provider = ''passkey'', stableId = ''cred''\<rparr>]"
  by (simp add: samplePlatform_def sampleGoogle_def sampleGitHub_def samplePasskey_def)

lemma sample_registerWallet:
  "registerWallet sampleState samplePlatform ''r'' [sampleGoogle, sampleGitHub, samplePasskey] 2
     (Some sampleSalt) True
   = Inr \<lparr>reg_commitments = sampleStored, reg_salt = sampleSalt,
          reg_address = ''0x3631373636353732336137363331376336373639'',
          reg_privateKey =
            Some ''6b65792d7765617665723a76317c6769746875623a3637363937343638373536''\<rparr>"
proof -
  have ne: "sampleSalt \<noteq> []" by (simp add: sampleSalt_def)
  show ?thesis
    unfolding registerWallet_def sampleState_config sample_extract_all
    by (simp add: ne sampleSalt_normal sampleStored_def [symmetric] sample_deriveWalletKey
        catchKeyDerivation_def Let_def)
qed

theorem recovery_rederives_registered_key_witness:
  "registerWallet sampleState samplePlatform ''r'' [sampleGoogle, sampleGitHub, samplePasskey] 2
     (Some sampleSalt) True
   = Inr \<lparr>reg_commitments = sampleStored, reg_salt = sampleSalt,
          reg_address = ''0x3631373636353732336137363331376336373639'',
          reg_privateKey =
            Some ''6b65792d7765617665723a76317c6769746875623a3637363937343638373536''\<rparr>
   \<and> mset [samplePasskey, sampleGoogle] \<subseteq># mset [sampleGoogle, sampleGitHub, samplePasskey]
   \<and> 2 \<le> int (length [samplePasskey, sampleGoogle])
   \<and> recoverWallet sampleState samplePlatform [samplePasskey, sampleGoogle] sampleStored
        sampleSalt 2 True
       = Inr \<lparr>wallet = Some \<lparr>wallet_address = ''0x3631373636353732336137363331376336373639''\<rparr>,
              matchedCount = 2, success = True,
              rec_privateKey =
                Some ''6b65792d7765617665723a76317c6769746875623a3637363937343638373536''\<rparr>"
proof -
  have sub: "mset [samplePasskey, sampleGoogle] \<subseteq># mset [sampleGoogle, sampleGitHub, samplePasskey]"
    by (simp add: sampleGoogle_def sampleGitHub_def samplePasskey_def)
  have k: "2 \<le> int (length [samplePasskey, sampleGoogle])" by simp
  have r: "recoverWallet sampleState samplePlatform [samplePasskey, sampleGoogle] sampleStored
        sampleSalt 2 True
       = Inr \<lparr>wallet = Some \<lparr>wallet_address = ''0x3631373636353732336137363331376336373639''\<rparr>,
              matchedCount = 2, success = True,
              rec_privateKey =
                Some ''6b65792d7765617665723a76317c6769746875623a3637363937343638373536''\<rparr>"
    using recovery_rederives_registered_key [OF sample_registerWallet sub k, of True]
    by auto
  show ?thesis
    by (intro conjI) (rule sample_registerWallet sub k r)+
qed

text \<open>
  C2, as stated, fails: the Google proof presented twice against the three stored
  commitments, of which only the Google one validates, gives \<open>matchedCount = 2\<close> and a
  successful recovery with threshold 2.
\<close>

theorem matchedCount_double_counts_counterexample:
  "extractClaims samplePlatform [sampleGoogle, sampleGoogle]
     = Inr [\<lparr>provider = ''google'', stableId = ''h.p.s''\<rparr>,
            \<lparr>provider = ''google'', stableId = ''h.p.s''\<rparr>]
   \<and> distinctValidatingStored samplePlatform sampleSalt sampleStored
        [\<lparr>provider = ''google'', stableId = ''h.p.s''\<rparr>,
         \<lparr>provider = ''google'', stableId = ''h.p.s''\<rparr>] = 1
   \<and> recoverWallet sampleState samplePlatform [sampleGoogle, sampleGoogle] sampleStored
        sampleSalt 2 False
       = Inr \<lparr>wallet = Some \<lparr>wallet_address = ''0x3631373636353732336137363331376336373639''\<rparr>,
              matchedCount = 2, success = True, rec_privateKey = None\<rparr>"
proof -
  have d: "deriveWalletKey samplePlatform (map toTypedCommitment sampleStored) 2
             (normalizeSalt samplePlatform sampleSalt)
           = Inr \<lparr>privateKey = ''6b65792d7765617665723a76317c6769746875623a3637363937343638373536'',
                  address = ''0x3631373636353732336137363331376336373639''\<rparr>"
    unfolding sampleSalt_normal by (rule sample_deriveWalletKey)
  have m: "2 \<le> int (length (filter (\<lambda>c. list_ex (\<lambda>s. validateCommitment samplePlatform c
                           (normalizeSalt samplePlatform sampleSalt) (commitment s)) sampleStored)
             [\<lparr>provider = ''google'', stableId = ''h.p.s''\<rparr>,
              \<lparr>provider = ''google'', stableId = ''h.p.s''\<rparr>]))"
    by (simp add: sample_google_matches)
  have r: "recoverWallet sampleState samplePlatform [sampleGoogle, sampleGoogle] sampleStored
             sampleSalt 2 False
           = Inr \<lparr>wallet = Some \<lparr>wallet_address = ''0x3631373636353732336137363331376336373639''\<rparr>,
                  matchedCount = 2, success = True, rec_privateKey = None\<rparr>"
    using recoverWallet_returns [OF sampleState_config sample_extract_google_twice m d, of False]
    by (simp add: sample_google_matches)
  have v: "distinctValidatingStored samplePlatform sampleSalt sampleStored
        [\<lparr>provider = ''google'', stableId = ''h.p.s''\<rparr>,
         \<lparr>provider = ''google'', stableId = ''h.p.s''\<rparr>] = 1"
    unfolding sampleStored_value
    by (simp add: distinctValidatingStored_def validateCommitment_def sample_eval)
  show ?thesis
    by (intro conjI) (rule sample_extract_google_twice v r)+
qed

section \<open>Order dependence under a collation with an ignorable code unit\<close>

lemma normalize_sampleA: "normalizeCommitment sampleA = sampleA"
  by (simp add: normalizeCommitment_def sampleA_def toLowerCase_def toLowerCaseChar_def trim_def
      isWhiteSpace_def)

lemma normalize_sampleB: "normalizeCommitment sampleB = sampleB"
  by (simp add: normalizeCommitment_def sampleB_def toLowerCase_def toLowerCaseChar_def trim_def
      isWhiteSpace_def)

lemma sampleA_neq_sampleB: "sampleA \<noteq> sampleB"
  by (simp add: sampleA_def sampleB_def)

lemma canonical_AB:
  assumes "localeCompare P ''a'' [CHR ''a'', CHR 0x01] = 0" and "localeCompare P ''ab'' ''ab'' = 0"
  shows "canonicalizeCommitments P [sampleA, sampleB]
         = [CHR ''a'', CHR '':'', CHR ''a'', CHR ''b'', CHR ''|'',
            CHR ''a'', CHR 0x01, CHR '':'', CHR ''a'', CHR ''b'']"
proof -
  have "compareCommitments P sampleA sampleB = 0"
    using assms by (simp add: compareCommitments_def sampleA_def sampleB_def)
  then have "array_sort (compareCommitments P) [sampleA, sampleB] = [sampleA, sampleB]"
    by (simp add: array_sort_def)
  then show ?thesis
    by (simp add: canonicalizeCommitments_def normalize_sampleA normalize_sampleB
        serializeCommitment_def) (simp add: sampleA_def sampleB_def)
qed

lemma canonical_BA:
  assumes "localeCompare P [CHR ''a'', CHR 0x01] ''a'' = 0" and "localeCompare P ''ab'' ''ab'' = 0"
  shows "canonicalizeCommitments P [sampleB, sampleA]
         = [CHR ''a'', CHR 0x01, CHR '':'', CHR ''a'', CHR ''b'', CHR ''|'',
            CHR ''a'', CHR '':'', CHR ''a'', CHR ''b'']"
proof -
  have "compareCommitments P sampleB sampleA = 0"
    using assms by (simp add: compareCommitments_def sampleA_def sampleB_def)
  then have "array_sort (compareCommitments P) [sampleB, sampleA] = [sampleB, sampleA]"
    by (simp add: array_sort_def)
  then show ?thesis
    by (simp add: canonicalizeCommitments_def normalize_sampleA normalize_sampleB
        serializeCommitment_def) (simp add: sampleA_def sampleB_def)
qed

lemma ignorable_facts:
  "ignorableCompare ''a'' [CHR ''a'', CHR 0x01] = 0"
  "ignorableCompare [CHR ''a'', CHR 0x01] ''a'' = 0"
  "ignorableCompare ''ab'' ''ab'' = 0"
  by (simp_all add: ignorableCompare_def sampleCompare_def)


lemma keyMaterial_AB:
  "hkdf (samplePlatform\<lparr>localeCompare := cmp\<rparr>) (sha256 (samplePlatform\<lparr>localeCompare := cmp\<rparr>))
     (sha256 (samplePlatform\<lparr>localeCompare := cmp\<rparr>) (utf8ToBytes (''key-weaver:v1|''
        @ [CHR ''a'', CHR '':'', CHR ''a'', CHR ''b'', CHR ''|'',
            CHR ''a'', CHR 0x01, CHR '':'', CHR ''a'', CHR ''b''] @ ''|'' @ sampleSalt)))
     (hexToBytes sampleSalt) (utf8ToBytes ''key-weaver-hkdf'') 32
   = utf8ToBytes (''key-weaver:v1|a:ab|a'' @ [CHR 0x01] @ '':ab|aaaaaaa'')"
  by (simp add: sample_eval)

lemma scalar_AB:
  "keyMaterialToScalar (utf8ToBytes (''key-weaver:v1|a:ab|a'' @ [CHR 0x01] @ '':ab|aaaaaaa''))
   = Inr 48576762689031550368037085818585753618219116186428393873865603536819109060961"
  by (simp add: keyMaterialToScalar_def bigIntOfHex_def isHexChar_def hexVal_def CURVE_ORDER_def
      sample_eval)

lemma privateKey_AB:
  "padStart 64 (CHR ''0'')
     (bigIntToHex 48576762689031550368037085818585753618219116186428393873865603536819109060961)
   = ''6b65792d7765617665723a76317c613a61627c61013a61627c61616161616161''"
  by (simp add: padStart_def bigIntToHex.simps hexDigit_def lowerHexChars_def)

lemma address_AB:
  "''0x'' @ bytesToHex (sliceLast 20 (keccak_256 (samplePlatform\<lparr>localeCompare := cmp\<rparr>)
      (drop 1 (getPublicKey (samplePlatform\<lparr>localeCompare := cmp\<rparr>)
      ''6b65792d7765617665723a76317c613a61627c61013a61627c61616161616161'' False))))
   = ''0x3631373636353732336137363331376336313361''"
  by (simp add: sliceLast_def sample_eval)

lemma keyMaterial_BA:
  "hkdf (samplePlatform\<lparr>localeCompare := cmp\<rparr>) (sha256 (samplePlatform\<lparr>localeCompare := cmp\<rparr>))
     (sha256 (samplePlatform\<lparr>localeCompare := cmp\<rparr>) (utf8ToBytes (''key-weaver:v1|''
        @ [CHR ''a'', CHR 0x01, CHR '':'', CHR ''a'', CHR ''b'', CHR ''|'',
            CHR ''a'', CHR '':'', CHR ''a'', CHR ''b''] @ ''|'' @ sampleSalt)))
     (hexToBytes sampleSalt) (utf8ToBytes ''key-weaver-hkdf'') 32
   = utf8ToBytes (''key-weaver:v1|a'' @ [CHR 0x01] @ '':ab|a:ab|aaaaaaa'')"
  by (simp add: sample_eval)

lemma scalar_BA:
  "keyMaterialToScalar (utf8ToBytes (''key-weaver:v1|a'' @ [CHR 0x01] @ '':ab|a:ab|aaaaaaa''))
   = Inr 48576762689031550368037085818585753598771175662628652456466929126355790553441"
  by (simp add: keyMaterialToScalar_def bigIntOfHex_def isHexChar_def hexVal_def CURVE_ORDER_def
      sample_eval)

lemma privateKey_BA:
  "padStart 64 (CHR ''0'')
     (bigIntToHex 48576762689031550368037085818585753598771175662628652456466929126355790553441)
   = ''6b65792d7765617665723a76317c61013a61627c613a61627c61616161616161''"
  by (simp add: padStart_def bigIntToHex.simps hexDigit_def lowerHexChars_def)

lemma address_BA:
  "''0x'' @ bytesToHex (sliceLast 20 (keccak_256 (samplePlatform\<lparr>localeCompare := cmp\<rparr>)
      (drop 1 (getPublicKey (samplePlatform\<lparr>localeCompare := cmp\<rparr>)
      ''6b65792d7765617665723a76317c61013a61627c613a61627c61616161616161'' False))))
   = ''0x3631373636353732336137363331376336313031''"
  by (simp add: sliceLast_def sample_eval)

text \<open>
  C4. The canonical form depends on the order of the commitments as soon as the
  collation returns 0 on two different strings. When \<open>localeCompare\<close> returns 0 on the
  provider \<open>a\<close> and the provider \<open>a\<close> followed by the code unit U+0001, in both
  directions, and on equal commitments, the commitments \<open>a:ab\<close> and \<open>a<U+0001>:ab\<close>
  in their two orders, one multiset, have different canonical forms: the stable sort
  keeps each input order.
\<close>

theorem canonicalizeCommitments_order_dependent:
  assumes "localeCompare P ''a'' [CHR ''a'', CHR 0x01] = 0"
    and "localeCompare P [CHR ''a'', CHR 0x01] ''a'' = 0"
    and "localeCompare P ''ab'' ''ab'' = 0"
  shows "mset [sampleA, sampleB] = mset [sampleB, sampleA]
       \<and> canonicalizeCommitments P [sampleA, sampleB]
           = [CHR ''a'', CHR '':'', CHR ''a'', CHR ''b'', CHR ''|'',
            CHR ''a'', CHR 0x01, CHR '':'', CHR ''a'', CHR ''b'']
       \<and> canonicalizeCommitments P [sampleB, sampleA]
           = [CHR ''a'', CHR 0x01, CHR '':'', CHR ''a'', CHR ''b'', CHR ''|'',
            CHR ''a'', CHR '':'', CHR ''a'', CHR ''b'']
       \<and> canonicalizeCommitments P [sampleA, sampleB]
           \<noteq> canonicalizeCommitments P [sampleB, sampleA]"
proof -
  have m: "mset [sampleA, sampleB] = mset [sampleB, sampleA]" by simp
  have ab: "canonicalizeCommitments P [sampleA, sampleB]
           = [CHR ''a'', CHR '':'', CHR ''a'', CHR ''b'', CHR ''|'',
            CHR ''a'', CHR 0x01, CHR '':'', CHR ''a'', CHR ''b'']"
    using assms(1,3) by (rule canonical_AB)
  have ba: "canonicalizeCommitments P [sampleB, sampleA]
           = [CHR ''a'', CHR 0x01, CHR '':'', CHR ''a'', CHR ''b'', CHR ''|'',
            CHR ''a'', CHR '':'', CHR ''a'', CHR ''b'']"
    using assms(2,3) by (rule canonical_BA)
  have ne: "canonicalizeCommitments P [sampleA, sampleB]
           \<noteq> canonicalizeCommitments P [sampleB, sampleA]"
    unfolding ab ba by simp
  show ?thesis
    by (intro conjI) (rule m ab ba ne)+
qed

theorem canonicalizeCommitments_order_dependent_witness:
  "localeCompare ignorablePlatform ''a'' [CHR ''a'', CHR 0x01] = 0
   \<and> localeCompare ignorablePlatform [CHR ''a'', CHR 0x01] ''a'' = 0
   \<and> localeCompare ignorablePlatform ''ab'' ''ab'' = 0
   \<and> canonicalizeCommitments ignorablePlatform [sampleA, sampleB]
       = [CHR ''a'', CHR '':'', CHR ''a'', CHR ''b'', CHR ''|'',
            CHR ''a'', CHR 0x01, CHR '':'', CHR ''a'', CHR ''b'']
   \<and> canonicalizeCommitments ignorablePlatform [sampleB, sampleA]
       = [CHR ''a'', CHR 0x01, CHR '':'', CHR ''a'', CHR ''b'', CHR ''|'',
            CHR ''a'', CHR '':'', CHR ''a'', CHR ''b'']
   \<and> canonicalizeCommitments ignorablePlatform [sampleA, sampleB]
       \<noteq> canonicalizeCommitments ignorablePlatform [sampleB, sampleA]"
proof -
  have a: "localeCompare ignorablePlatform ''a'' [CHR ''a'', CHR 0x01] = 0"
    and b: "localeCompare ignorablePlatform [CHR ''a'', CHR 0x01] ''a'' = 0"
    and c: "localeCompare ignorablePlatform ''ab'' ''ab'' = 0"
    by (simp_all add: ignorablePlatform_def ignorable_facts)
  have r: "canonicalizeCommitments ignorablePlatform [sampleA, sampleB]
       = [CHR ''a'', CHR '':'', CHR ''a'', CHR ''b'', CHR ''|'',
            CHR ''a'', CHR 0x01, CHR '':'', CHR ''a'', CHR ''b'']
   \<and> canonicalizeCommitments ignorablePlatform [sampleB, sampleA]
       = [CHR ''a'', CHR 0x01, CHR '':'', CHR ''a'', CHR ''b'', CHR ''|'',
            CHR ''a'', CHR '':'', CHR ''a'', CHR ''b'']
   \<and> canonicalizeCommitments ignorablePlatform [sampleA, sampleB]
       \<noteq> canonicalizeCommitments ignorablePlatform [sampleB, sampleA]"
    using canonicalizeCommitments_order_dependent [OF a b c] by blast
  show ?thesis
    by (intro conjI) (rule a b c r [THEN conjunct1] r [THEN conjunct2, THEN conjunct1]
        r [THEN conjunct2, THEN conjunct2])+
qed

text \<open>
  C3. \<open>deriveWalletKey\<close> depends on the order of the commitments as soon as the
  collation returns 0 on two different strings. When the collation returns 0 on the
  provider \<open>a\<close> and the provider \<open>a\<close> followed by the code unit U+0001, in both
  directions, and on equal commitments, then with the sample hashes \<open>deriveWalletKey\<close>
  on the commitments \<open>a:ab\<close> and \<open>a<U+0001>:ab\<close>, with threshold 2 and one salt,
  returns one key for one order and a different key, private key and address both, for
  the other order.
\<close>

theorem deriveWalletKey_order_dependent:
  assumes "cmp ''a'' [CHR ''a'', CHR 0x01] = 0"
    and "cmp [CHR ''a'', CHR 0x01] ''a'' = 0"
    and "cmp ''ab'' ''ab'' = 0"
  shows "mset [sampleA, sampleB] = mset [sampleB, sampleA]
       \<and> deriveWalletKey (samplePlatform\<lparr>localeCompare := cmp\<rparr>) [sampleA, sampleB] 2 sampleSalt
           = Inr \<lparr>privateKey = ''6b65792d7765617665723a76317c613a61627c61013a61627c61616161616161'',
                  address = ''0x3631373636353732336137363331376336313361''\<rparr>
       \<and> deriveWalletKey (samplePlatform\<lparr>localeCompare := cmp\<rparr>) [sampleB, sampleA] 2 sampleSalt
           = Inr \<lparr>privateKey = ''6b65792d7765617665723a76317c61013a61627c613a61627c61616161616161'',
                  address = ''0x3631373636353732336137363331376336313031''\<rparr>
       \<and> deriveWalletKey (samplePlatform\<lparr>localeCompare := cmp\<rparr>) [sampleA, sampleB] 2 sampleSalt
           \<noteq> deriveWalletKey (samplePlatform\<lparr>localeCompare := cmp\<rparr>) [sampleB, sampleA] 2
               sampleSalt"
proof -
  let ?P = "samplePlatform\<lparr>localeCompare := cmp\<rparr>"
  have f: "localeCompare ?P ''a'' [CHR ''a'', CHR 0x01] = 0"
    "localeCompare ?P [CHR ''a'', CHR 0x01] ''a'' = 0"
    "localeCompare ?P ''ab'' ''ab'' = 0"
    using assms by simp_all
  have m: "mset [sampleA, sampleB] = mset [sampleB, sampleA]" by simp
  have k: "2 \<le> int (length [sampleA, sampleB])" "2 \<le> int (length [sampleB, sampleA])"
    by simp_all
  have ab: "deriveWalletKey ?P [sampleA, sampleB] 2 sampleSalt
           = Inr \<lparr>privateKey = ''6b65792d7765617665723a76317c613a61627c61013a61627c61616161616161'',
                  address = ''0x3631373636353732336137363331376336313361''\<rparr>"
    unfolding deriveWalletKey_unfold [OF k(1) sampleSalt_valid] canonical_AB [OF f(1,3)]
      keyMaterial_AB scalar_AB
    by (simp only: sum.case privateKey_AB address_AB)
  have ba: "deriveWalletKey ?P [sampleB, sampleA] 2 sampleSalt
           = Inr \<lparr>privateKey = ''6b65792d7765617665723a76317c61013a61627c613a61627c61616161616161'',
                  address = ''0x3631373636353732336137363331376336313031''\<rparr>"
    unfolding deriveWalletKey_unfold [OF k(2) sampleSalt_valid] canonical_BA [OF f(2,3)]
      keyMaterial_BA scalar_BA
    by (simp only: sum.case privateKey_BA address_BA)
  have ne: "deriveWalletKey ?P [sampleA, sampleB] 2 sampleSalt
           \<noteq> deriveWalletKey ?P [sampleB, sampleA] 2 sampleSalt"
    unfolding ab ba by simp
  show ?thesis
    by (intro conjI) (rule m ab ba ne)+
qed

theorem deriveWalletKey_order_dependent_witness:
  "ignorableCompare ''a'' [CHR ''a'', CHR 0x01] = 0
   \<and> ignorableCompare [CHR ''a'', CHR 0x01] ''a'' = 0
   \<and> ignorableCompare ''ab'' ''ab'' = 0
   \<and> deriveWalletKey ignorablePlatform [sampleA, sampleB] 2 sampleSalt
       = Inr \<lparr>privateKey = ''6b65792d7765617665723a76317c613a61627c61013a61627c61616161616161'',
              address = ''0x3631373636353732336137363331376336313361''\<rparr>
   \<and> deriveWalletKey ignorablePlatform [sampleB, sampleA] 2 sampleSalt
       = Inr \<lparr>privateKey = ''6b65792d7765617665723a76317c61013a61627c613a61627c61616161616161'',
              address = ''0x3631373636353732336137363331376336313031''\<rparr>"
proof -
  note r = deriveWalletKey_order_dependent [OF ignorable_facts, folded ignorablePlatform_def]
  show ?thesis
    by (intro conjI) (rule ignorable_facts r [THEN conjunct2, THEN conjunct1]
        r [THEN conjunct2, THEN conjunct2, THEN conjunct1])+
qed

end
